theory Spec2Isabelle
  imports Main "HOL-Library.Word" "HOL-Library.Multiset"
begin

section \<open>SEC filing alert scraper: the per-feed poll of \<open>src/main.js\<close>\<close>

text \<open>
  The development embeds the decision logic of \<open>main.js\<close>: the classifier
  \<open>detectFilingType\<close> and the body of the crawler's \<open>requestHandler\<close> (normalisation of
  the parsed entries, the sort, the cap, the cursor lookup, the type filter, the emission and
  the cursor write).

  Conventions of the embedding.
  \<^item> A JavaScript string is a \<open>string\<close> whose characters are its code units; the model
    covers strings of code units below 256. A value that is a string, \<open>null\<close> or
    \<open>undefined\<close> is a \<open>string option\<close>, and the source's truthiness tests
    (\<open>x || y\<close>, \<open>x ? a : b\<close>) are written out: \<open>None\<close> and the empty string are falsy.
  \<^item> \<open>crypto.createHash('sha1')\<close> and the \<open>Date\<close> constructor belong to the runtime, not
    to the repository. They are parameters (record \<open>lib\<close>): \<open>sha1\<close> gives the 160-bit digest
    of a string, \<open>date_parse s\<close> gives the time value in milliseconds of \<open>new Date(s)\<close>, or
    \<open>None\<close> for an invalid date.
  \<^item> The key-value store, the dataset and the network are collaborators of the run. The store
    is a map and the dataset a list inside the state; whether a call on them is rejected in
    one poll is an input of that poll (record \<open>io\<close>), so that every \<open>catch\<close> block of the
    handler is a branch of the model.
\<close>

subsection \<open>Strings and truthiness\<close>

definition truthy :: "string option \<Rightarrow> bool" where
  "truthy x = (case x of None \<Rightarrow> False | Some s \<Rightarrow> s \<noteq> [])"

text \<open>\<open>x || d\<close> for a string-or-null \<open>x\<close> and a string \<open>d\<close>.\<close>

definition or_default :: "string option \<Rightarrow> string \<Rightarrow> string" where
  "or_default x d = (case x of None \<Rightarrow> d | Some s \<Rightarrow> if s = [] then d else s)"

text \<open>\<open>x || null\<close>.\<close>

definition or_null :: "string option \<Rightarrow> string option" where
  "or_null x = (if truthy x then x else None)"

definition is_digit :: "char \<Rightarrow> bool" where
  "is_digit c = (let n = (of_char c :: nat) in 48 \<le> n \<and> n \<le> 57)"

definition is_upper :: "char \<Rightarrow> bool" where
  "is_upper c = (let n = (of_char c :: nat) in 65 \<le> n \<and> n \<le> 90)"

definition is_lower :: "char \<Rightarrow> bool" where
  "is_lower c = (let n = (of_char c :: nat) in 97 \<le> n \<and> n \<le> 122)"

text \<open>The class \<open>\w\<close> of a regular expression without the \<open>u\<close> flag: ASCII letters, digits, underscore.\<close>

definition is_word_char :: "char \<Rightarrow> bool" where
  "is_word_char c = (is_digit c \<or> is_upper c \<or> is_lower c \<or> c = CHR ''_'')"

text \<open>The class \<open>\s\<close>, among the code units below 256: tab, line feed, vertical tab, form feed,
  carriage return, space and the no-break space.\<close>

definition is_space :: "char \<Rightarrow> bool" where
  "is_space c = (let n = (of_char c :: nat) in (9 \<le> n \<and> n \<le> 13) \<or> n = 32 \<or> n = 160)"

text \<open>
  Canonicalisation of a code unit under the \<open>i\<close> flag (no \<open>u\<close> flag): the upper-case form,
  except that a code unit from 128 on never becomes an ASCII one. Every pattern of the source
  is ASCII, so a code unit matches a pattern character exactly when their ASCII upper-case
  forms are equal; code units from 128 on are left alone and match no pattern character.
\<close>

definition re_canon :: "char \<Rightarrow> char" where
  "re_canon c = (if is_lower c then char_of ((of_char c :: nat) - 32) else c)"

text \<open>\<open>String.prototype.toLowerCase\<close> on code units below 256: \<open>A\<close>-\<open>Z\<close> and the Latin-1 capitals
  (192 to 222 but the multiplication sign 215) move up by 32.\<close>

definition lower_char :: "char \<Rightarrow> char" where
  "lower_char c =
     (let n = (of_char c :: nat)
      in if (65 \<le> n \<and> n \<le> 90) \<or> (192 \<le> n \<and> n \<le> 222 \<and> n \<noteq> 215) then char_of (n + 32) else c)"

definition toLowerCase :: "string \<Rightarrow> string" where
  "toLowerCase s = map lower_char s"

text \<open>\<open>p\<close> read case-insensitively at the start of \<open>s\<close>.\<close>

fun ci_prefix :: "string \<Rightarrow> string \<Rightarrow> bool" where
  "ci_prefix [] s = True"
| "ci_prefix (p # ps) [] = False"
| "ci_prefix (p # ps) (c # cs) = (re_canon p = re_canon c \<and> ci_prefix ps cs)"

fun starts_with :: "string \<Rightarrow> string \<Rightarrow> bool" where
  "starts_with [] s = True"
| "starts_with (p # ps) [] = False"
| "starts_with (p # ps) (c # cs) = (p = c \<and> starts_with ps cs)"

text \<open>\<open>s.includes(p)\<close>.\<close>

fun includes_str :: "string \<Rightarrow> string \<Rightarrow> bool" where
  "includes_str [] p = (p = [])"
| "includes_str (c # cs) p = (starts_with p (c # cs) \<or> includes_str cs p)"

text \<open>A search for the literal \<open>p\<close> under the \<open>i\<close> flag, as in \<open>/p/i.test(s)\<close>.\<close>

fun ci_includes :: "string \<Rightarrow> string \<Rightarrow> bool" where
  "ci_includes [] p = (p = [])"
| "ci_includes (c # cs) p = (ci_prefix p (c # cs) \<or> ci_includes cs p)"

subsection \<open>The classifier \<open>detectFilingType\<close>\<close>

definition tokens :: "string list" where
  "tokens = [''10-K'', ''10Q'', ''10-Q'', ''8-K'', ''8K'', ''SC 13D'', ''13F'', ''20-F'',
             ''S-1'', ''424B'', ''4'', ''3'']"

text \<open>
  \<open>\bT\b\<close> tried at the current position of the candidate: \<open>prev\<close> says whether the character
  before the position is a word character (\<open>False\<close> at the start of the string). \<open>\b\<close> holds
  where exactly one of the two neighbours is a word character.
\<close>

definition boundary :: "bool \<Rightarrow> string \<Rightarrow> bool" where
  "boundary prev s = (prev \<noteq> (case s of [] \<Rightarrow> False | c # _ \<Rightarrow> is_word_char c))"

definition token_here :: "string \<Rightarrow> bool \<Rightarrow> string \<Rightarrow> bool" where
  "token_here t prev s =
     (boundary prev s \<and> ci_prefix t s \<and>
      boundary (if t = [] then prev else is_word_char (last (take (length t) s)))
               (drop (length t) s))"

fun token_search :: "string \<Rightarrow> bool \<Rightarrow> string \<Rightarrow> bool" where
  "token_search t prev [] = token_here t prev []"
| "token_search t prev (c # cs) =
     (token_here t prev (c # cs) \<or> token_search t (is_word_char c) cs)"

text \<open>\<open>new RegExp('\\b' + escaped(t) + '\\b', 'i').test(candidate)\<close>: the escape makes every
  character of \<open>t\<close> a literal.\<close>

definition token_test :: "string \<Rightarrow> string \<Rightarrow> bool" where
  "token_test t candidate = token_search t False candidate"

text \<open>The three alias tests on the token that matched: \<open>/10-?q/i\<close>, \<open>/10-?k/i\<close>, \<open>/8-?k/i\<close>.\<close>

definition normalize_token :: "string \<Rightarrow> string" where
  "normalize_token t =
     (if ci_includes t ''10q'' \<or> ci_includes t ''10-q'' then ''10-Q''
      else if ci_includes t ''10k'' \<or> ci_includes t ''10-k'' then ''10-K''
      else if ci_includes t ''8k'' \<or> ci_includes t ''8-k'' then ''8-K''
      else t)"

fun first_token :: "string list \<Rightarrow> string \<Rightarrow> string option" where
  "first_token [] candidate = None"
| "first_token (t # ts) candidate =
     (if token_test t candidate then Some (normalize_token t) else first_token ts candidate)"

text \<open>
  \<open>/Form\s*(\d+[A-Z]?)/i\<close> anchored at the start of \<open>s\<close>; the result is the matched text
  \<open>m[0]\<close>. White space, digits and letters are disjoint classes, so the greedy quantifiers
  never give back a character.
\<close>

definition form_here :: "string \<Rightarrow> string option" where
  "form_here s =
     (if ci_prefix ''Form'' s then
        (let r1 = drop 4 s;
             ws = takeWhile is_space r1;
             r2 = dropWhile is_space r1;
             ds = takeWhile is_digit r2;
             r3 = dropWhile is_digit r2
         in if ds = [] then None
            else Some (take 4 s @ ws @ ds @
                  (case r3 of [] \<Rightarrow> [] | c # _ \<Rightarrow> if is_upper c \<or> is_lower c then [c] else [])))
      else None)"

text \<open>\<open>candidate.match(...)\<close>: the leftmost position where the pattern matches.\<close>

fun form_match :: "string \<Rightarrow> string option" where
  "form_match [] = None"
| "form_match (c # cs) =
     (case form_here (c # cs) of Some m \<Rightarrow> Some m | None \<Rightarrow> form_match cs)"

definition detectFilingType :: "string option \<Rightarrow> string option \<Rightarrow> string option" where
  "detectFilingType title summary =
     (let candidate = or_default title [] @ '' '' @ or_default summary []
      in case first_token tokens candidate of
           Some t \<Rightarrow> Some t
         | None \<Rightarrow> form_match candidate)"

subsection \<open>Entries, configuration and state\<close>

text \<open>An entry as \<open>parseAtom\<close> returns it: no field is guaranteed.\<close>

record raw_entry =
  raw_id :: "string option"
  raw_title :: "string option"
  raw_link :: "string option"
  raw_updated :: "string option"
  raw_summary :: "string option"
  raw_content :: "string option"

text \<open>
  A normalised entry. The source keeps \<open>updated\<close> as the ISO string
  \<open>new Date(e.updated).toISOString()\<close> and reads it back in the sort with
  \<open>new Date(a.updated).getTime()\<close>; reading an ISO string back gives the time value it was
  printed from, so the field holds that time value (milliseconds since the epoch).
\<close>

record entry =
  entry_id :: string
  entry_title :: "string option"
  entry_link :: "string option"
  entry_updated :: "int option"
  entry_summary :: "string option"
  entry_content :: "string option"

record lib =
  sha1 :: "string \<Rightarrow> 160 word"
  date_parse :: "string \<Rightarrow> int option"

record config =
  filingTypes :: "string list"
  maxEntriesPerFeed :: int
  includeFullFiling :: bool
  webhookUrl :: string

text \<open>The request: the feed address and the company tag put into \<open>userData\<close> at start.\<close>

record request =
  url :: string
  company :: "string option"

text \<open>The output record and the webhook payload, without the wall-clock stamp \<open>scrapedAt\<close>,
  which no decision reads. \<open>publishedAt\<close> is the entry's \<open>updated\<close>, held as a time value like
  the field it is copied from.\<close>

record alert =
  feedUrl :: string
  alert_company :: "string option"
  filingId :: string
  filingType :: "string option"
  alert_title :: "string option"
  alert_summary :: "string option"
  alert_link :: "string option"
  publishedAt :: "int option"
  fullFilingText :: "string option"

record payload =
  p_filingId :: string
  p_filingType :: "string option"
  p_title :: "string option"
  p_link :: "string option"
  p_publishedAt :: "int option"
  p_feedUrl :: string

text \<open>A value of the key-value store: a bare string (the legacy form) or the structured
  form \<open>{ lastSeenId, updatedAt, feed }\<close> (the wall-clock stamp \<open>updatedAt\<close> left out).\<close>

datatype stored = Bare string | Structured string string

text \<open>The state that polls share: the store, the rows pushed to the dataset, and the payloads
  handed to \<open>postWebhook\<close> (which is not awaited, and whose own failures it only logs).\<close>

record state =
  kv :: "string \<rightharpoonup> stored"
  dataset :: "alert list"
  webhooks :: "payload list"

text \<open>What the collaborators do during one poll: whether \<open>kvStore.getValue\<close> and
  \<open>kvStore.setValue\<close> are rejected, for which record \<open>Dataset.pushData\<close> is rejected, and the
  text that fetching a link returns (\<open>None\<close> when the fetch throws or is not OK).\<close>

record io =
  kv_read_fails :: bool
  kv_write_fails :: bool
  push_fails :: "alert \<Rightarrow> bool"
  fetch_text :: "string \<Rightarrow> string option"

datatype poll_error = RangeError

subsection \<open>Keys and identifiers\<close>

definition hex_digit :: "nat \<Rightarrow> char" where
  "hex_digit n = (if n < 10 then char_of (48 + n) else char_of (87 + n))"

text \<open>\<open>digest('hex')\<close>: the 40 hexadecimal digits of the 160-bit digest, most significant first.\<close>

definition digest_hex :: "160 word \<Rightarrow> string" where
  "digest_hex w = map (\<lambda>i. hex_digit (unat (take_bit 4 (drop_bit (4 * (39 - i)) w)))) [0..<40]"

definition feedKey :: "lib \<Rightarrow> string \<Rightarrow> string" where
  "feedKey l u = ''sec_feed_last_'' @ digest_hex (sha1 l u)"

text \<open>\<open>e.id || e.link || sha1hex(e.title || e.summary || '')\<close>.\<close>

definition canonical_id :: "lib \<Rightarrow> raw_entry \<Rightarrow> string" where
  "canonical_id l e =
     or_default (raw_id e)
       (or_default (raw_link e)
          (digest_hex (sha1 l (or_default (raw_title e) (or_default (raw_summary e) [])))))"

text \<open>The callback of \<open>entries.map\<close>. \<open>toISOString\<close> throws a \<open>RangeError\<close> on an invalid date.\<close>

definition normalize_entry :: "lib \<Rightarrow> raw_entry \<Rightarrow> poll_error + entry" where
  "normalize_entry l e =
     (case (if truthy (raw_updated e)
            then (case date_parse l (or_default (raw_updated e) []) of
                    None \<Rightarrow> Inl RangeError
                  | Some t \<Rightarrow> Inr (Some t))
            else Inr None) of
        Inl err \<Rightarrow> Inl err
      | Inr u \<Rightarrow>
          Inr \<lparr> entry_id = canonical_id l e,
                entry_title = raw_title e,
                entry_link = raw_link e,
                entry_updated = u,
                entry_summary = or_null (raw_summary e),
                entry_content = or_null (raw_content e) \<rparr>)"

text \<open>\<open>entries.map(...)\<close>: the first throw leaves the map (and the handler).\<close>

fun normalize_all :: "lib \<Rightarrow> raw_entry list \<Rightarrow> poll_error + entry list" where
  "normalize_all l [] = Inr []"
| "normalize_all l (e # es) =
     (case normalize_entry l e of
        Inl err \<Rightarrow> Inl err
      | Inr n \<Rightarrow> (case normalize_all l es of Inl err \<Rightarrow> Inl err | Inr ns \<Rightarrow> Inr (n # ns)))"

subsection \<open>Chronology, window and new entries\<close>

text \<open>The key of the comparator: the time value, 0 for an entry without a timestamp.\<close>

definition time_key :: "entry \<Rightarrow> int" where
  "time_key a = (case entry_updated a of None \<Rightarrow> 0 | Some t \<Rightarrow> t)"

text \<open>\<open>normalized.sort((a, b) => ta - tb)\<close>: \<open>Array.prototype.sort\<close> is stable, and so is
  \<open>sort_key\<close>.\<close>

definition sort_entries :: "entry list \<Rightarrow> entry list" where
  "sort_entries ns = sort_key time_key ns"

text \<open>\<open>xs.slice(-Math.abs(m))\<close> for an integer \<open>m\<close>: the last \<open>|m|\<close> elements, and the whole
  list when \<open>m\<close> is 0 (\<open>slice(-0)\<close> is \<open>slice(0)\<close>).\<close>

definition slice_last :: "int \<Rightarrow> 'a list \<Rightarrow> 'a list" where
  "slice_last m xs = (if m = 0 then xs else drop (length xs - nat \<bar>m\<bar>) xs)"

text \<open>The window \<open>toConsider\<close> of a batch.\<close>

definition toConsider :: "lib \<Rightarrow> config \<Rightarrow> raw_entry list \<Rightarrow> poll_error + entry list" where
  "toConsider l cfg entries =
     (case normalize_all l entries of
        Inl err \<Rightarrow> Inl err
      | Inr normalized \<Rightarrow> Inr (slice_last (maxEntriesPerFeed cfg) (sort_entries normalized)))"

text \<open>The cursor read at the start of the handler: a bare string, or the \<open>lastSeenId\<close> of the
  structured form; a missing value and an empty string leave \<open>lastSeenId\<close> null.\<close>

definition read_last_seen :: "stored option \<Rightarrow> string option" where
  "read_last_seen v =
     (case v of
        None \<Rightarrow> None
      | Some (Bare s) \<Rightarrow> if s = [] then None else Some s
      | Some (Structured s f) \<Rightarrow> if s = [] then None else Some s)"

text \<open>\<open>xs.findIndex(e => e.id === c)\<close>: the first index, \<open>None\<close> for -1.\<close>

fun findIndex :: "string \<Rightarrow> entry list \<Rightarrow> nat option" where
  "findIndex c [] = None"
| "findIndex c (x # xs) =
     (if entry_id x = c then Some 0
      else (case findIndex c xs of None \<Rightarrow> None | Some i \<Rightarrow> Some (Suc i)))"

text \<open>\<open>idx\<close> and \<open>newItems\<close>.\<close>

definition newItems :: "string option \<Rightarrow> entry list \<Rightarrow> entry list" where
  "newItems lastSeenId w =
     (case (if truthy lastSeenId then findIndex (or_default lastSeenId []) w else None) of
        Some idx \<Rightarrow> drop (idx + 1) w
      | None \<Rightarrow> w)"

subsection \<open>Filter, emission and the handler\<close>

text \<open>\<open>filingTypes.some(t => lower(t) === lowered || lowered.includes(lower(t)))\<close>, with
  \<open>lowered\<close> the lower-case form of the detected type, or of the empty string when it is null.\<close>

definition matches :: "string list \<Rightarrow> string option \<Rightarrow> bool" where
  "matches fts detectedType =
     (let lowered = toLowerCase (or_default detectedType [])
      in list_ex (\<lambda>t. toLowerCase t = lowered \<or> includes_str lowered (toLowerCase t)) fts)"

definition make_item :: "config \<Rightarrow> io \<Rightarrow> request \<Rightarrow> entry \<Rightarrow> string option \<Rightarrow> alert" where
  "make_item cfg env req e detectedType =
     \<lparr> feedUrl = url req,
       alert_company = or_null (company req),
       filingId = entry_id e,
       filingType = detectedType,
       alert_title = entry_title e,
       alert_summary = entry_summary e,
       alert_link = entry_link e,
       publishedAt = entry_updated e,
       fullFilingText =
         (if includeFullFiling cfg \<and> truthy (entry_link e)
          then fetch_text env (or_default (entry_link e) []) else None) \<rparr>"

definition make_payload :: "request \<Rightarrow> entry \<Rightarrow> string option \<Rightarrow> payload" where
  "make_payload req e detectedType =
     \<lparr> p_filingId = entry_id e,
       p_filingType = detectedType,
       p_title = entry_title e,
       p_link = entry_link e,
       p_publishedAt = entry_updated e,
       p_feedUrl = url req \<rparr>"

text \<open>
  The loop over \<open>newItems\<close>, threading \<open>newLastSeen\<close>, the dataset and the webhook posts. An
  entry the filter rejects only moves \<open>newLastSeen\<close>. A rejected \<open>pushData\<close> throws into the
  \<open>catch\<close> of the loop body, which logs: nothing is pushed or posted and \<open>newLastSeen\<close> stays.
\<close>

fun process_items ::
  "config \<Rightarrow> io \<Rightarrow> request \<Rightarrow> entry list \<Rightarrow> string option \<times> alert list \<times> payload list
     \<Rightarrow> string option \<times> alert list \<times> payload list" where
  "process_items cfg env req [] acc = acc"
| "process_items cfg env req (e # rest) (newLastSeen, ds, ws) =
     (let detectedType = detectFilingType (entry_title e) (entry_summary e)
      in if filingTypes cfg \<noteq> [] \<and> \<not> matches (filingTypes cfg) detectedType
         then process_items cfg env req rest (Some (entry_id e), ds, ws)
         else (let item = make_item cfg env req e detectedType
               in if push_fails env item
                  then process_items cfg env req rest (newLastSeen, ds, ws)
                  else process_items cfg env req rest
                         (Some (entry_id e), ds @ [item],
                          if webhookUrl cfg \<noteq> [] then ws @ [make_payload req e detectedType]
                          else ws)))"

text \<open>
  The handler for one fetched feed. An empty parse returns at once. A throw of the
  normalisation leaves the handler before anything is written. The first loop of the source
  over \<open>toConsider\<close> has an empty effect and is left out, and so is the closing
  \<open>enqueueLinks()\<close>, which only adds requests to the crawler's queue.
\<close>

definition requestHandler ::
  "lib \<Rightarrow> config \<Rightarrow> io \<Rightarrow> request \<Rightarrow> raw_entry list \<Rightarrow> state \<Rightarrow> poll_error + state" where
  "requestHandler l cfg env req entries st =
     (if entries = [] then Inr st
      else
        (let key = feedKey l (url req);
             lastSeenId = (if kv_read_fails env then None else read_last_seen (kv st key))
         in case toConsider l cfg entries of
              Inl err \<Rightarrow> Inl err
            | Inr w \<Rightarrow>
                (case process_items cfg env req (newItems lastSeenId w)
                        (lastSeenId, dataset st, webhooks st) of
                   (newLastSeen, ds, ws) \<Rightarrow>
                     (let latest = (if w \<noteq> [] then Some (entry_id (last w)) else newLastSeen)
                      in Inr \<lparr> kv = (if truthy latest \<and> \<not> kv_write_fails env
                                      then (kv st)(key \<mapsto> Structured (or_default latest []) (url req))
                                      else kv st),
                               dataset = ds,
                               webhooks = ws \<rparr>))))"

text \<open>The cursor of a feed as the next poll will read it.\<close>

definition cursor :: "lib \<Rightarrow> request \<Rightarrow> state \<Rightarrow> string option" where
  "cursor l req st = read_last_seen (kv st (feedKey l (url req)))"

text \<open>A sequence of polls of one feed, each with its collaborators' behaviour and its parsed
  entries. A poll that throws fails its request and leaves the state as it was.\<close>

fun run_polls ::
  "lib \<Rightarrow> config \<Rightarrow> request \<Rightarrow> (io \<times> raw_entry list) list \<Rightarrow> state \<Rightarrow> state" where
  "run_polls l cfg req [] st = st"
| "run_polls l cfg req ((env, entries) # ps) st =
     (case requestHandler l cfg env req entries st of
        Inl err \<Rightarrow> run_polls l cfg req ps st
      | Inr st' \<Rightarrow> run_polls l cfg req ps st')"

subsection \<open>Notions used in the statements\<close>

text \<open>The output record of an entry, and whether the loop emits the entry: it passes the
  type filter (or there is none) and its push is not rejected.\<close>

definition item_of :: "config \<Rightarrow> io \<Rightarrow> request \<Rightarrow> entry \<Rightarrow> alert" where
  "item_of cfg env req e = make_item cfg env req e (detectFilingType (entry_title e) (entry_summary e))"

definition payload_of :: "request \<Rightarrow> entry \<Rightarrow> payload" where
  "payload_of req e = make_payload req e (detectFilingType (entry_title e) (entry_summary e))"

definition passes_filter :: "config \<Rightarrow> entry \<Rightarrow> bool" where
  "passes_filter cfg e =
     (filingTypes cfg = [] \<or>
      matches (filingTypes cfg) (detectFilingType (entry_title e) (entry_summary e)))"

definition accepted :: "config \<Rightarrow> io \<Rightarrow> request \<Rightarrow> entry \<Rightarrow> bool" where
  "accepted cfg env req e = (passes_filter cfg e \<and> \<not> push_fails env (item_of cfg env req e))"

text \<open>Collaborators that reject nothing; no linked page is fetched.\<close>

definition io_ok :: io where
  "io_ok = \<lparr> kv_read_fails = False, kv_write_fails = False,
             push_fails = (\<lambda>a. False), fetch_text = (\<lambda>u. None) \<rparr>"

text \<open>The defaults of the actor's input, the default feed, and the empty store.\<close>

definition default_config :: config where
  "default_config =
     \<lparr> filingTypes = [''10-K'', ''10-Q'', ''8-K''], maxEntriesPerFeed = 50,
       includeFullFiling = False, webhookUrl = [] \<rparr>"

definition apple_feed :: request where
  "apple_feed =
     \<lparr> url = ''https://www.sec.gov/cgi-bin/browse-edgar?action=getcompany&CIK=0000320193&output=atom'',
       company = Some ''0000320193'' \<rparr>"

definition empty_state :: state where
  "empty_state = \<lparr> kv = Map.empty, dataset = [], webhooks = [] \<rparr>"

text \<open>
  Entries for the concrete instances. \<open>sample_dates\<close> is a finite table of \<open>Date\<close> readings:
  it gives the time value that \<open>new Date(s).getTime()\<close> returns for each listed string, and
  \<open>None\<close> (an invalid date) elsewhere, as for the string \<open>not a date\<close>. In \<open>sample_lib h\<close> the
  digest function \<open>h\<close> stays arbitrary.
\<close>

definition sample_dates :: "string \<Rightarrow> int option" where
  "sample_dates s =
     (if s = ''1969-12-31T23:59:59Z'' then Some (- 1000)
      else if s = ''2024-01-01T00:00:00Z'' then Some 1704067200000
      else if s = ''2024-01-02T00:00:00Z'' then Some 1704153600000
      else if s = ''2024-01-03T00:00:00Z'' then Some 1704240000000
      else if s = ''2024-01-04T00:00:00Z'' then Some 1704326400000
      else if s = ''2024-01-05T00:00:00Z'' then Some 1704412800000
      else None)"

definition sample_lib :: "(string \<Rightarrow> 160 word) \<Rightarrow> lib" where
  "sample_lib h = \<lparr> sha1 = h, date_parse = sample_dates \<rparr>"

definition sample_raw :: "string \<Rightarrow> string option \<Rightarrow> string option \<Rightarrow> raw_entry" where
  "sample_raw i t u =
     \<lparr> raw_id = Some i, raw_title = t, raw_link = None, raw_updated = u,
       raw_summary = None, raw_content = None \<rparr>"

definition sample_entry :: "string \<Rightarrow> string option \<Rightarrow> int option \<Rightarrow> entry" where
  "sample_entry i t u =
     \<lparr> entry_id = i, entry_title = t, entry_link = None, entry_updated = u,
       entry_summary = None, entry_content = None \<rparr>"

text \<open>
  Notions for sequences of polls. \<open>pos\<close> ranks the ids of a feed in its chronology. A window is
  ordered when its ids rise strictly in that ranking; it catches up with a cursor when it
  holds the cursor's id or lies entirely after it. A run is orderly when the store rejects no
  read and no write and every window that is formed is ordered and catches up with the cursor
  stored when its poll starts.
\<close>

definition window_ordered :: "(string \<Rightarrow> int) \<Rightarrow> entry list \<Rightarrow> bool" where
  "window_ordered pos w = sorted_wrt (\<lambda>a b. pos (entry_id a) < pos (entry_id b)) w"

definition catches_up :: "(string \<Rightarrow> int) \<Rightarrow> string option \<Rightarrow> entry list \<Rightarrow> bool" where
  "catches_up pos c w =
     (case c of
        None \<Rightarrow> True
      | Some s \<Rightarrow> s \<in> entry_id ` set w \<or> (\<forall>e \<in> set w. pos s < pos (entry_id e)))"

fun orderly_run ::
  "(string \<Rightarrow> int) \<Rightarrow> lib \<Rightarrow> config \<Rightarrow> request \<Rightarrow> (io \<times> raw_entry list) list \<Rightarrow> state \<Rightarrow> bool" where
  "orderly_run pos l cfg req [] st = True"
| "orderly_run pos l cfg req ((env, es) # ps) st =
     (\<not> kv_read_fails env \<and> \<not> kv_write_fails env \<and>
      (case toConsider l cfg es of
         Inl err \<Rightarrow> True
       | Inr w \<Rightarrow> window_ordered pos w \<and> catches_up pos (cursor l req st) w) \<and>
      orderly_run pos l cfg req ps (run_polls l cfg req [(env, es)] st))"

text \<open>The invariant of an orderly run: the filing ids in the dataset are distinct, all records
  are of this feed, and none ranks after the stored cursor.\<close>

definition settled :: "(string \<Rightarrow> int) \<Rightarrow> lib \<Rightarrow> request \<Rightarrow> state \<Rightarrow> bool" where
  "settled pos l req st =
     (distinct (map filingId (dataset st)) \<and>
      (\<forall>a \<in> set (dataset st). feedUrl a = url req) \<and>
      (dataset st \<noteq> [] \<longrightarrow>
         (\<exists>c. cursor l req st = Some c \<and> (\<forall>a \<in> set (dataset st). pos (filingId a) \<le> pos c))))"

text \<open>The ranking of the sample ids.\<close>

definition sample_pos :: "string \<Rightarrow> int" where
  "sample_pos s =
     (if s = ''urn:1'' then 1 else if s = ''urn:2'' then 2 else if s = ''urn:3'' then 3
      else if s = ''urn:4'' then 4 else if s = ''urn:5'' then 5 else 0)"

section \<open>Properties\<close>

subsection \<open>Evaluating the classifier\<close>

text \<open>The searches written with \<open>if\<close>, so that a failed test at a position cuts the rest short.\<close>

lemma token_here_if:
  "token_here t prev s =
     (if boundary prev s
      then (if ci_prefix t s
            then boundary (if t = [] then prev else is_word_char (last (take (length t) s)))
               (drop (length t) s)
            else False)
      else False)"
  by (simp add: token_here_def)

lemma ci_prefix_if:
  "ci_prefix (p # ps) (c # cs) = (if re_canon p = re_canon c then ci_prefix ps cs else False)"
  by simp

lemma token_search_if:
  "token_search t prev (c # cs) =
     (if token_here t prev (c # cs) then True else token_search t (is_word_char c) cs)"
  by simp

lemma form_match_if:
  "form_match (c # cs) =
     (if ci_prefix ''Form'' (c # cs)
      then (case form_here (c # cs) of Some m \<Rightarrow> Some m | None \<Rightarrow> form_match cs)
      else form_match cs)"
  by (simp add: form_here_def)

lemmas classify_eval =
  detectFilingType_def or_default_def tokens_def token_test_def token_here_if boundary_def
  is_word_char_def is_digit_def is_upper_def is_lower_def is_space_def re_canon_def
  normalize_token_def char_of_def form_here_def ci_prefix_if token_search_if form_match_if

lemmas classify_del = ci_prefix.simps(3) token_search.simps(2) form_match.simps(2)

subsection \<open>Identifiers and the window\<close>

lemma length_digest_hex: "length (digest_hex w) = 40"
  by (simp add: digest_hex_def)

lemma digest_hex_nonempty: "digest_hex w \<noteq> []"
  using length_digest_hex [of w] by auto

lemma or_default_nonempty: "d \<noteq> [] \<Longrightarrow> or_default x d \<noteq> []"
  by (simp add: or_default_def split: option.splits)

lemma canonical_id_nonempty: "canonical_id l e \<noteq> []"
  by (simp add: canonical_id_def or_default_nonempty digest_hex_nonempty)

lemma normalize_entry_id: "normalize_entry l e = Inr n \<Longrightarrow> entry_id n = canonical_id l e"
  by (auto simp: normalize_entry_def split: if_splits option.splits sum.splits)

lemma normalize_all_ids:
  "normalize_all l es = Inr ns \<Longrightarrow> map entry_id ns = map (canonical_id l) es"
  by (induction es arbitrary: ns) (auto split: sum.splits dest: normalize_entry_id)

lemma normalize_all_length: "normalize_all l es = Inr ns \<Longrightarrow> length ns = length es"
  by (induction es arbitrary: ns) (auto split: sum.splits)

lemma set_slice_last: "set (slice_last m xs) \<subseteq> set xs"
  by (auto simp: slice_last_def dest: in_set_dropD)

lemma slice_last_nonempty: "xs \<noteq> [] \<Longrightarrow> slice_last m xs \<noteq> []"
proof (cases "m = 0")
  case True
  then show "xs \<noteq> [] \<Longrightarrow> slice_last m xs \<noteq> []" by (simp add: slice_last_def)
next
  case False
  assume "xs \<noteq> []"
  then have "0 < length xs" by simp
  moreover from False have "0 < nat \<bar>m\<bar>" by simp
  ultimately have "length xs - nat \<bar>m\<bar> < length xs" by arith
  with False show "slice_last m xs \<noteq> []" by (simp add: slice_last_def)
qed

lemma sort_entries_nonempty: "ns \<noteq> [] \<Longrightarrow> sort_entries ns \<noteq> []"
  by (metis length_sort sort_entries_def length_0_conv)

lemma toConsider_Inr:
  "toConsider l cfg es = Inr w \<Longrightarrow>
   \<exists>ns. normalize_all l es = Inr ns \<and> w = slice_last (maxEntriesPerFeed cfg) (sort_entries ns)"
  by (auto simp: toConsider_def split: sum.splits)

lemma toConsider_nonempty:
  assumes "toConsider l cfg es = Inr w" and "es \<noteq> []"
  shows "w \<noteq> []"
proof -
  from toConsider_Inr [OF assms(1)] obtain ns where ns: "normalize_all l es = Inr ns"
    and w: "w = slice_last (maxEntriesPerFeed cfg) (sort_entries ns)"
    by blast
  from ns assms(2) have "ns \<noteq> []" using normalize_all_length by fastforce
  then show ?thesis by (simp add: w slice_last_nonempty sort_entries_nonempty)
qed

lemma toConsider_ids_nonempty:
  assumes "toConsider l cfg es = Inr w" and "x \<in> set w"
  shows "entry_id x \<noteq> []"
proof -
  from toConsider_Inr [OF assms(1)] obtain ns where ns: "normalize_all l es = Inr ns"
    and w: "w = slice_last (maxEntriesPerFeed cfg) (sort_entries ns)"
    by blast
  have "x \<in> set ns" using assms(2) set_slice_last [of "maxEntriesPerFeed cfg" "sort_entries ns"]
    by (auto simp: w sort_entries_def)
  then have "entry_id x \<in> set (map entry_id ns)" by simp
  then have "entry_id x \<in> set (map (canonical_id l) es)" by (simp only: normalize_all_ids [OF ns])
  then obtain e where "entry_id x = canonical_id l e" by auto
  then show ?thesis by (simp add: canonical_id_nonempty)
qed

subsection \<open>The cursor lookup\<close>

lemma read_last_seen_nonempty: "read_last_seen v = Some s \<Longrightarrow> s \<noteq> []"
  by (auto simp: read_last_seen_def split: option.splits stored.splits if_splits)

lemma findIndex_None: "findIndex c w = None \<longleftrightarrow> c \<notin> entry_id ` set w"
  by (induction w) (auto split: option.splits)

lemma findIndex_Some:
  "findIndex c w = Some i \<longleftrightarrow>
   i < length w \<and> entry_id (w ! i) = c \<and> (\<forall>j<i. entry_id (w ! j) \<noteq> c)"
proof (induction w arbitrary: i)
  case Nil
  then show ?case by simp
next
  case (Cons x xs)
  show ?case
  proof (cases "entry_id x = c")
    case True
    then show ?thesis by (cases i) auto
  next
    case False
    show ?thesis
    proof (cases i)
      case 0
      with False show ?thesis by (auto split: option.splits)
    next
      case (Suc k)
      have "(\<forall>j<Suc k. entry_id ((x # xs) ! j) \<noteq> c) \<longleftrightarrow> (\<forall>j<k. entry_id (xs ! j) \<noteq> c)"
        using False by (auto simp: less_Suc_eq_0_disj)
      with False Suc Cons.IH [of k] show ?thesis by (auto split: option.splits)
    qed
  qed
qed

lemma newItems_None: "newItems None w = w"
  by (simp add: newItems_def truthy_def)

lemma newItems_Some:
  "s \<noteq> [] \<Longrightarrow> newItems (Some s) w = (case findIndex s w of Some i \<Rightarrow> drop (Suc i) w | None \<Rightarrow> w)"
  by (simp add: newItems_def truthy_def or_default_def split: option.splits)

lemma set_newItems: "set (newItems c w) \<subseteq> set w"
  by (auto simp: newItems_def split: option.splits if_splits dest: in_set_dropD)

subsection \<open>The loop and the handler\<close>

lemma process_items_dataset:
  "fst (snd (process_items cfg env req items (n, ds, ws))) =
   ds @ map (item_of cfg env req) (filter (accepted cfg env req) items)"
  by (induction items arbitrary: n ds ws)
     (simp_all add: Let_def accepted_def passes_filter_def item_of_def)

lemma process_items_webhooks:
  "snd (snd (process_items cfg env req items (n, ds, ws))) =
   ws @ (if webhookUrl cfg \<noteq> [] then map (payload_of req) (filter (accepted cfg env req) items) else [])"
  by (induction items arbitrary: n ds ws)
     (simp_all add: Let_def accepted_def passes_filter_def item_of_def payload_of_def)

lemma requestHandler_empty: "requestHandler l cfg env req [] st = Inr st"
  by (simp add: requestHandler_def)

lemma requestHandler_Inl:
  "toConsider l cfg es = Inl err \<Longrightarrow> es \<noteq> [] \<Longrightarrow> requestHandler l cfg env req es st = Inl err"
  by (simp add: requestHandler_def Let_def)

text \<open>The state after a poll whose normalisation succeeds.\<close>

lemma requestHandler_Inr:
  assumes w: "toConsider l cfg es = Inr w" and ne: "es \<noteq> []"
  shows "requestHandler l cfg env req es st =
      Inr \<lparr> kv = (if kv_write_fails env then kv st
                  else (kv st)(feedKey l (url req) \<mapsto> Structured (entry_id (last w)) (url req))),
            dataset = dataset st @ map (item_of cfg env req)
               (filter (accepted cfg env req)
                  (newItems (if kv_read_fails env then None else cursor l req st) w)),
            webhooks = webhooks st @
               (if webhookUrl cfg \<noteq> [] then map (payload_of req)
                  (filter (accepted cfg env req)
                     (newItems (if kv_read_fails env then None else cursor l req st) w)) else []) \<rparr>"
proof -
  have wne: "w \<noteq> []" by (rule toConsider_nonempty [OF w ne])
  then have "last w \<in> set w" by simp
  then have idne: "entry_id (last w) \<noteq> []" by (rule toConsider_ids_nonempty [OF w])
  let ?ls = "if kv_read_fails env then None else cursor l req st"
  obtain n ds ws where p: "process_items cfg env req (newItems ?ls w) (?ls, dataset st, webhooks st) = (n, ds, ws)"
    by (cases "process_items cfg env req (newItems ?ls w) (?ls, dataset st, webhooks st)") auto
  have ds: "ds = dataset st @ map (item_of cfg env req) (filter (accepted cfg env req) (newItems ?ls w))"
    using process_items_dataset [of cfg env req "newItems ?ls w" ?ls "dataset st" "webhooks st"] p by simp
  have ws: "ws = webhooks st @ (if webhookUrl cfg \<noteq> [] then map (payload_of req)
            (filter (accepted cfg env req) (newItems ?ls w)) else [])"
    using process_items_webhooks [of cfg env req "newItems ?ls w" ?ls "dataset st" "webhooks st"] p by simp
  have "requestHandler l cfg env req es st =
      Inr \<lparr> kv = (if kv_write_fails env then kv st
                else (kv st)(feedKey l (url req) \<mapsto> Structured (entry_id (last w)) (url req))),
            dataset = ds, webhooks = ws \<rparr>"
    using w ne wne idne p
    by (cases "kv_read_fails env")
       (simp_all add: requestHandler_def Let_def cursor_def truthy_def or_default_def)
  then show ?thesis unfolding ds ws .
qed

section \<open>The claims\<close>

text \<open>
  C8 (as amended). The classifier on the three examples of the specification: the
  quarterly-report title gives the canonical label \<open>10-Q\<close>; \<open>Form 4 filed\<close> gives \<open>4\<close>, because
  the token \<open>4\<close> of the fixed list matches between word boundaries before the secondary pattern
  is tried; the unrelated text gives null.
\<close>

theorem C8_classifier_examples:
  "detectFilingType (Some ''Apple Inc files quarterly report 10-Q'') None = Some ''10-Q'' \<and>
   detectFilingType (Some ''Form 4 filed'') None = Some ''4'' \<and>
   detectFilingType (Some ''unrelated announcement'') (Some ''nothing material'') = None"
  by (simp add: classify_eval del: classify_del)

text \<open>C8 as stated fails: the classifier does not return \<open>Form 4\<close> on \<open>Form 4 filed\<close>.\<close>

theorem C8_form4_counterexample:
  "detectFilingType (Some ''Form 4 filed'') None \<noteq> Some ''Form 4''"
  by (simp add: classify_eval del: classify_del)

text \<open>The secondary pattern is reached when no token matches, as for a form number with a
  letter suffix or one written without a space.\<close>

lemma detect_form_pattern:
  "detectFilingType (Some ''Form 4A filed'') None = Some ''Form 4A'' \<and>
   detectFilingType (Some ''Form144 notice'') None = Some ''Form144''"
  by (simp add: classify_eval del: classify_del)

text \<open>
  C4 (as amended). The normalised id is the source id when present and non-empty; otherwise
  the link when present and non-empty; otherwise the hexadecimal SHA-1 digest of the title
  when it is present and non-empty, else of the summary when it is present and non-empty,
  else of the empty string. The id is never empty, and it is the id of the normalised entry.
\<close>

theorem C4_canonical_id:
  "(\<forall>s. raw_id e = Some s \<and> s \<noteq> [] \<longrightarrow> canonical_id l e = s) \<and>
   (\<forall>s. \<not> truthy (raw_id e) \<and> raw_link e = Some s \<and> s \<noteq> [] \<longrightarrow> canonical_id l e = s) \<and>
   (\<forall>t. \<not> truthy (raw_id e) \<and> \<not> truthy (raw_link e) \<and> raw_title e = Some t \<and> t \<noteq> [] \<longrightarrow>
        canonical_id l e = digest_hex (sha1 l t)) \<and>
   (\<forall>s. \<not> truthy (raw_id e) \<and> \<not> truthy (raw_link e) \<and> \<not> truthy (raw_title e) \<and>
        raw_summary e = Some s \<and> s \<noteq> [] \<longrightarrow> canonical_id l e = digest_hex (sha1 l s)) \<and>
   (\<not> truthy (raw_id e) \<and> \<not> truthy (raw_link e) \<and> \<not> truthy (raw_title e) \<and>
        \<not> truthy (raw_summary e) \<longrightarrow> canonical_id l e = digest_hex (sha1 l [])) \<and>
   canonical_id l e \<noteq> [] \<and>
   (\<forall>n. normalize_entry l e = Inr n \<longrightarrow> entry_id n = canonical_id l e)"
proof -
  have "canonical_id l e \<noteq> []" by (rule canonical_id_nonempty)
  moreover have "\<forall>n. normalize_entry l e = Inr n \<longrightarrow> entry_id n = canonical_id l e"
    by (simp add: normalize_entry_id)
  ultimately show ?thesis
    by (auto simp: canonical_id_def or_default_def truthy_def split: option.splits)
qed

theorem C4_canonical_id_witness:
  "\<forall>l. canonical_id l \<lparr> raw_id = Some ''urn:acc:1'', raw_title = Some ''10-K'', raw_link = Some ''http://x/1'',
                 raw_updated = None, raw_summary = None, raw_content = None \<rparr> = ''urn:acc:1'' \<and>
     canonical_id l \<lparr> raw_id = Some [], raw_title = Some ''10-K'', raw_link = Some ''http://x/1'',
                 raw_updated = None, raw_summary = None, raw_content = None \<rparr> = ''http://x/1'' \<and>
     canonical_id l \<lparr> raw_id = None, raw_title = Some ''Annual report'', raw_link = None,
                 raw_updated = None, raw_summary = Some ''first'', raw_content = None \<rparr>
       = digest_hex (sha1 l ''Annual report'') \<and>
     canonical_id l \<lparr> raw_id = None, raw_title = None, raw_link = None,
                 raw_updated = None, raw_summary = Some ''first'', raw_content = None \<rparr>
       = digest_hex (sha1 l ''first'') \<and>
     canonical_id l \<lparr> raw_id = None, raw_title = None, raw_link = None,
                 raw_updated = None, raw_summary = None, raw_content = None \<rparr>
       = digest_hex (sha1 l [])"
proof (intro allI)
  fix l :: lib
  show "canonical_id l \<lparr> raw_id = Some ''urn:acc:1'', raw_title = Some ''10-K'', raw_link = Some ''http://x/1'',
                 raw_updated = None, raw_summary = None, raw_content = None \<rparr> = ''urn:acc:1'' \<and>
     canonical_id l \<lparr> raw_id = Some [], raw_title = Some ''10-K'', raw_link = Some ''http://x/1'',
                 raw_updated = None, raw_summary = None, raw_content = None \<rparr> = ''http://x/1'' \<and>
     canonical_id l \<lparr> raw_id = None, raw_title = Some ''Annual report'', raw_link = None,
                 raw_updated = None, raw_summary = Some ''first'', raw_content = None \<rparr>
       = digest_hex (sha1 l ''Annual report'') \<and>
     canonical_id l \<lparr> raw_id = None, raw_title = None, raw_link = None,
                 raw_updated = None, raw_summary = Some ''first'', raw_content = None \<rparr>
       = digest_hex (sha1 l ''first'') \<and>
     canonical_id l \<lparr> raw_id = None, raw_title = None, raw_link = None,
                 raw_updated = None, raw_summary = None, raw_content = None \<rparr>
       = digest_hex (sha1 l [])"
    using
      C4_canonical_id [of "\<lparr> raw_id = Some ''urn:acc:1'', raw_title = Some ''10-K'', raw_link = Some ''http://x/1'',
                 raw_updated = None, raw_summary = None, raw_content = None \<rparr>" l]
      C4_canonical_id [of "\<lparr> raw_id = Some [], raw_title = Some ''10-K'', raw_link = Some ''http://x/1'',
                 raw_updated = None, raw_summary = None, raw_content = None \<rparr>" l]
      C4_canonical_id [of "\<lparr> raw_id = None, raw_title = Some ''Annual report'', raw_link = None,
                 raw_updated = None, raw_summary = Some ''first'', raw_content = None \<rparr>" l]
      C4_canonical_id [of "\<lparr> raw_id = None, raw_title = None, raw_link = None,
                 raw_updated = None, raw_summary = Some ''first'', raw_content = None \<rparr>" l]
      C4_canonical_id [of "\<lparr> raw_id = None, raw_title = None, raw_link = None,
                 raw_updated = None, raw_summary = None, raw_content = None \<rparr>" l]
    by (simp add: truthy_def)
qed

text \<open>
  C4 as stated fails: two entries without id and link, with the same title and different
  summaries, get the same id whatever the digest function is, since only the title is hashed.
\<close>

theorem C4_same_title_counterexample:
  "\<forall>l. canonical_id l \<lparr> raw_id = None, raw_title = Some ''Annual report'', raw_link = None,
                 raw_updated = None, raw_summary = Some ''first'', raw_content = None \<rparr>
      = canonical_id l \<lparr> raw_id = None, raw_title = Some ''Annual report'', raw_link = None,
                 raw_updated = None, raw_summary = Some ''second'', raw_content = None \<rparr>"
  by (simp add: canonical_id_def or_default_def)

text \<open>
  C2 (as amended). For every stored value and every window: when the cursor read from the
  store occurs in the window and \<open>i\<close> is the first position with that id (the one
  \<open>findIndex\<close> returns), the new entries are exactly those at positions \<open>i + 1\<close> to the end;
  when the cursor is null or occurs nowhere in the window, the new entries are the whole window.
\<close>

theorem C2_newItems:
  "(\<forall>s i. read_last_seen v = Some s \<and> i < length w \<and> entry_id (w ! i) = s \<and>
          (\<forall>j<i. entry_id (w ! j) \<noteq> s) \<longrightarrow>
          newItems (read_last_seen v) w = drop (i + 1) w) \<and>
   (read_last_seen v = None \<or>
      (\<exists>s. read_last_seen v = Some s \<and> s \<notin> entry_id ` set w) \<longrightarrow>
      newItems (read_last_seen v) w = w)"
proof (intro conjI allI impI)
  fix s i
  assume a: "read_last_seen v = Some s \<and> i < length w \<and> entry_id (w ! i) = s \<and>
          (\<forall>j<i. entry_id (w ! j) \<noteq> s)"
  then have ne: "s \<noteq> []" using read_last_seen_nonempty by blast
  from a have "findIndex s w = Some i" by (simp add: findIndex_Some)
  with a ne show "newItems (read_last_seen v) w = drop (i + 1) w"
    by (simp add: newItems_Some)
next
  assume "read_last_seen v = None \<or> (\<exists>s. read_last_seen v = Some s \<and> s \<notin> entry_id ` set w)"
  then show "newItems (read_last_seen v) w = w"
  proof
    assume "read_last_seen v = None"
    then show ?thesis by (simp add: newItems_None)
  next
    assume "\<exists>s. read_last_seen v = Some s \<and> s \<notin> entry_id ` set w"
    then obtain s where s: "read_last_seen v = Some s" and n: "s \<notin> entry_id ` set w" by blast
    from s have "s \<noteq> []" by (rule read_last_seen_nonempty)
    moreover from n have "findIndex s w = None" by (simp add: findIndex_None)
    ultimately show ?thesis using s by (simp add: newItems_Some)
  qed
qed

theorem C2_newItems_witness:
  "newItems (read_last_seen (Some (Structured ''b'' ''http://feed'')))
      [sample_entry ''a'' None (Some 1), sample_entry ''b'' None (Some 2),
       sample_entry ''c'' None (Some 3), sample_entry ''d'' None (Some 4)]
     = [sample_entry ''c'' None (Some 3), sample_entry ''d'' None (Some 4)] \<and>
   newItems (read_last_seen None)
      [sample_entry ''a'' None (Some 1), sample_entry ''b'' None (Some 2),
       sample_entry ''c'' None (Some 3), sample_entry ''d'' None (Some 4)]
     = [sample_entry ''a'' None (Some 1), sample_entry ''b'' None (Some 2),
        sample_entry ''c'' None (Some 3), sample_entry ''d'' None (Some 4)] \<and>
   newItems (read_last_seen (Some (Bare ''z'')))
      [sample_entry ''a'' None (Some 1), sample_entry ''b'' None (Some 2),
       sample_entry ''c'' None (Some 3), sample_entry ''d'' None (Some 4)]
     = [sample_entry ''a'' None (Some 1), sample_entry ''b'' None (Some 2),
        sample_entry ''c'' None (Some 3), sample_entry ''d'' None (Some 4)]"
  using
    C2_newItems [of "Some (Structured ''b'' ''http://feed'')"
      "[sample_entry ''a'' None (Some 1), sample_entry ''b'' None (Some 2),
        sample_entry ''c'' None (Some 3), sample_entry ''d'' None (Some 4)]"]
    C2_newItems [of None
      "[sample_entry ''a'' None (Some 1), sample_entry ''b'' None (Some 2),
        sample_entry ''c'' None (Some 3), sample_entry ''d'' None (Some 4)]"]
    C2_newItems [of "Some (Bare ''z'')"
      "[sample_entry ''a'' None (Some 1), sample_entry ''b'' None (Some 2),
        sample_entry ''c'' None (Some 3), sample_entry ''d'' None (Some 4)]"]
  by (simp add: read_last_seen_def sample_entry_def newItems_def truthy_def or_default_def)

text \<open>
  C2 as stated fails: in a window where the cursor's id occurs at positions 0 and 2, the id
  occurs at position 2, yet the new entries are those after position 0, not the (empty) rest
  after position 2.
\<close>

theorem C2_later_occurrence_counterexample:
  "read_last_seen (Some (Structured ''urn:1'' ''http://feed'')) = Some ''urn:1'' \<and>
   entry_id ([sample_entry ''urn:1'' None (Some 1), sample_entry ''urn:2'' None (Some 2),
              sample_entry ''urn:1'' None (Some 3)] ! 2) = ''urn:1'' \<and>
   newItems (read_last_seen (Some (Structured ''urn:1'' ''http://feed'')))
      [sample_entry ''urn:1'' None (Some 1), sample_entry ''urn:2'' None (Some 2),
       sample_entry ''urn:1'' None (Some 3)]
     = [sample_entry ''urn:2'' None (Some 2), sample_entry ''urn:1'' None (Some 3)] \<and>
   newItems (read_last_seen (Some (Structured ''urn:1'' ''http://feed'')))
      [sample_entry ''urn:1'' None (Some 1), sample_entry ''urn:2'' None (Some 2),
       sample_entry ''urn:1'' None (Some 3)]
     \<noteq> drop (2 + 1)
      [sample_entry ''urn:1'' None (Some 1), sample_entry ''urn:2'' None (Some 2),
       sample_entry ''urn:1'' None (Some 3)]"
  by (simp add: read_last_seen_def sample_entry_def newItems_def truthy_def or_default_def)

subsection \<open>The handler, continued\<close>

lemma cursor_update:
  "s \<noteq> [] \<Longrightarrow> cursor l req (st\<lparr> kv := (kv st)(feedKey l (url req) \<mapsto> Structured s f) \<rparr>) = Some s"
  by (simp add: cursor_def read_last_seen_def)

lemma requestHandler_cursor:
  assumes w: "toConsider l cfg es = Inr w" and ne: "es \<noteq> []"
    and st': "requestHandler l cfg env req es st = Inr st'"
  shows "cursor l req st' = (if kv_write_fails env then cursor l req st else Some (entry_id (last w)))"
proof -
  have wne: "w \<noteq> []" by (rule toConsider_nonempty [OF w ne])
  then have "last w \<in> set w" by simp
  then have idne: "entry_id (last w) \<noteq> []" by (rule toConsider_ids_nonempty [OF w])
  from st' show ?thesis
    unfolding requestHandler_Inr [OF w ne]
    using idne by (auto simp: cursor_def read_last_seen_def)
qed

lemma requestHandler_cases:
  assumes "requestHandler l cfg env req es st = Inr st'"
  shows "(es = [] \<and> st' = st) \<or> (es \<noteq> [] \<and> (\<exists>w. toConsider l cfg es = Inr w))"
proof (cases "es = []")
  case True
  with assms show ?thesis by (simp add: requestHandler_def)
next
  case False
  show ?thesis
  proof (cases "toConsider l cfg es")
    case (Inl err)
    with False assms show ?thesis by (simp add: requestHandler_Inl)
  next
    case (Inr w)
    with False show ?thesis by simp
  qed
qed

lemma toConsider_empty: "toConsider l cfg [] = Inr w \<Longrightarrow> w = []"
  by (auto simp: toConsider_def slice_last_def sort_entries_def)

lemma io_ok_simps:
  "kv_read_fails io_ok = False" "kv_write_fails io_ok = False" "push_fails io_ok a = False"
  by (simp_all add: io_ok_def)

lemma sample_entry_simps:
  "entry_id (sample_entry i t u) = i" "entry_title (sample_entry i t u) = t"
  "entry_updated (sample_entry i t u) = u" "entry_summary (sample_entry i t u) = None"
  "entry_link (sample_entry i t u) = None"
  by (simp_all add: sample_entry_def)

lemma cursor_empty_state: "cursor l req empty_state = None"
  by (simp add: cursor_def empty_state_def read_last_seen_def)

lemma empty_state_simps: "dataset empty_state = []" "webhooks empty_state = []"
  by (simp_all add: empty_state_def)


text \<open>
  C7. In every poll whose window is not empty and whose cursor write the store accepts, the
  handler returns and the stored cursor is the id of the last entry of the window, whatever
  the type filter does: the records added to the dataset are those of the new entries that
  are accepted, in order, and no entry that the filter rejects is among them.
\<close>

theorem C7_cursor_advances:
  assumes w: "toConsider l cfg es = Inr w" and wne: "w \<noteq> []" and wr: "\<not> kv_write_fails env"
  shows "\<exists>st'. requestHandler l cfg env req es st = Inr st' \<and>
           cursor l req st' = Some (entry_id (last w)) \<and>
           dataset st' = dataset st @ map (item_of cfg env req)
             (filter (accepted cfg env req)
                (newItems (if kv_read_fails env then None else cursor l req st) w)) \<and>
           (\<forall>e \<in> set w. \<not> passes_filter cfg e \<longrightarrow>
                item_of cfg env req e \<notin> set (drop (length (dataset st)) (dataset st')))"
proof -
  from w wne have ne: "es \<noteq> []" using toConsider_empty by blast
  let ?new = "newItems (if kv_read_fails env then None else cursor l req st) w"
  obtain st' where st': "requestHandler l cfg env req es st = Inr st'"
    by (simp add: requestHandler_Inr [OF w ne])
  have c: "cursor l req st' = Some (entry_id (last w))"
    using requestHandler_cursor [OF w ne st'] wr by simp
  have d: "dataset st' = dataset st @ map (item_of cfg env req) (filter (accepted cfg env req) ?new)"
    using st' unfolding requestHandler_Inr [OF w ne] by auto
  have r: "\<forall>e \<in> set w. \<not> passes_filter cfg e \<longrightarrow>
                item_of cfg env req e \<notin> set (drop (length (dataset st)) (dataset st'))"
  proof (intro ballI impI notI)
    fix e
    assume "e \<in> set w" and rej: "\<not> passes_filter cfg e"
      and "item_of cfg env req e \<in> set (drop (length (dataset st)) (dataset st'))"
    then have "item_of cfg env req e \<in> item_of cfg env req ` set (filter (accepted cfg env req) ?new)"
      by (simp add: d)
    then obtain e' where acc: "accepted cfg env req e'" and eq: "item_of cfg env req e = item_of cfg env req e'"
      by auto
    from eq have "alert_title (item_of cfg env req e) = alert_title (item_of cfg env req e')"
      and "alert_summary (item_of cfg env req e) = alert_summary (item_of cfg env req e')" by simp_all
    then have "entry_title e = entry_title e'" and "entry_summary e = entry_summary e'"
      by (simp_all add: item_of_def make_item_def)
    then have "passes_filter cfg e = passes_filter cfg e'" by (simp add: passes_filter_def)
    with acc rej show False by (simp add: accepted_def)
  qed
  from st' c d r show ?thesis by blast
qed

text \<open>Evaluation of the window and of the filter on the sample entries.\<close>

lemmas poll_eval =
  toConsider_def normalize_entry_def sample_raw_def sample_lib_def sample_dates_def
  canonical_id_def or_default_def or_null_def truthy_def sort_entries_def time_key_def
  slice_last_def default_config_def sample_entry_def

lemmas filter_eval =
  accepted_def passes_filter_def matches_def toLowerCase_def lower_char_def item_of_def
  io_ok_simps

lemma quarterly_window: "toConsider (sample_lib h) (default_config\<lparr> filingTypes := [''10-K''] \<rparr>)
          [sample_raw ''urn:q1'' (Some ''Apple Inc files quarterly report 10-Q'')
             (Some ''2024-01-01T00:00:00Z'')]
        = Inr [sample_entry ''urn:q1'' (Some ''Apple Inc files quarterly report 10-Q'')
             (Some 1704067200000)]"
  by (simp add: poll_eval)

lemma quarterly_rejected: "\<not> accepted (default_config\<lparr> filingTypes := [''10-K''] \<rparr>) io_ok apple_feed
     (sample_entry ''urn:q1'' (Some ''Apple Inc files quarterly report 10-Q'') (Some 1704067200000))"
  by (simp add: filter_eval default_config_def sample_entry_simps classify_eval del: classify_del)

text \<open>The example of the specification: with \<open>filingTypes = ["10-K"]\<close> and a window of one
  entry classified \<open>10-Q\<close>, nothing is emitted and the cursor is that entry's id.\<close>

theorem C7_cursor_advances_witness:
  "\<forall>h. \<exists>st'. requestHandler (sample_lib h) (default_config\<lparr> filingTypes := [''10-K''] \<rparr>) io_ok apple_feed
          [sample_raw ''urn:q1'' (Some ''Apple Inc files quarterly report 10-Q'')
             (Some ''2024-01-01T00:00:00Z'')] empty_state = Inr st' \<and>
        cursor (sample_lib h) apple_feed st' = Some ''urn:q1'' \<and>
        dataset st' = []"
proof
  fix h
  have a: "[sample_entry ''urn:q1'' (Some ''Apple Inc files quarterly report 10-Q'')
             (Some 1704067200000)] \<noteq> []" by simp
  have b: "\<not> kv_write_fails io_ok" by (simp add: io_ok_def)
  show "\<exists>st'. requestHandler (sample_lib h) (default_config\<lparr> filingTypes := [''10-K''] \<rparr>) io_ok apple_feed
          [sample_raw ''urn:q1'' (Some ''Apple Inc files quarterly report 10-Q'')
             (Some ''2024-01-01T00:00:00Z'')] empty_state = Inr st' \<and>
        cursor (sample_lib h) apple_feed st' = Some ''urn:q1'' \<and>
        dataset st' = []"
    using C7_cursor_advances [OF quarterly_window [of h] a b, of apple_feed empty_state] quarterly_rejected
    by (auto simp add: io_ok_simps cursor_empty_state empty_state_simps newItems_None sample_entry_simps)
qed


lemma includes_str_Nil: "includes_str s [] = True"
  by (cases s) simp_all

lemma toLowerCase_Nil: "toLowerCase t = [] \<longleftrightarrow> t = []"
  by (simp add: toLowerCase_def)

lemma matches_None:
  "[] \<notin> set fts \<Longrightarrow> \<not> matches fts None"
  by (induction fts) (auto simp: matches_def or_default_def toLowerCase_def)

lemma matches_empty_token: "[] \<in> set fts \<Longrightarrow> matches fts d"
  unfolding matches_def Let_def list_ex_iff
  by (rule bexI [of _ "[]"]) (simp_all add: includes_str_Nil toLowerCase_def)

lemma accepted_classified:
  assumes "filingTypes cfg \<noteq> []" and "[] \<notin> set (filingTypes cfg)" and "accepted cfg env req e"
  shows "detectFilingType (entry_title e) (entry_summary e) \<noteq> None"
proof
  assume "detectFilingType (entry_title e) (entry_summary e) = None"
  with assms matches_None [of "filingTypes cfg"] show False
    by (simp add: accepted_def passes_filter_def)
qed

lemma filingType_item_of:
  "filingType (item_of cfg env req e) = detectFilingType (entry_title e) (entry_summary e)"
  by (simp add: item_of_def make_item_def)

lemma p_filingType_payload_of:
  "p_filingType (payload_of req e) = detectFilingType (entry_title e) (entry_summary e)"
  by (simp add: payload_of_def make_payload_def)

text \<open>
  C10. When \<open>filingTypes\<close> is not empty and holds no empty string, no record that a poll adds
  to the dataset and no payload that it posts has a null type: an entry that the classifier
  does not recognise is never emitted. When \<open>filingTypes\<close> holds the empty string, the filter
  accepts every detected type, and a poll emits every new entry whose push is not rejected.
\<close>

theorem C10_unknown_type_filter:
  "(filingTypes cfg \<noteq> [] \<and> [] \<notin> set (filingTypes cfg) \<and>
      requestHandler l cfg env req es st = Inr st' \<longrightarrow>
      (\<forall>a \<in> set (drop (length (dataset st)) (dataset st')). filingType a \<noteq> None) \<and>
      (\<forall>p \<in> set (drop (length (webhooks st)) (webhooks st')). p_filingType p \<noteq> None)) \<and>
   ([] \<in> set (filingTypes cfg) \<longrightarrow>
      (\<forall>d. matches (filingTypes cfg) d) \<and>
      (\<forall>w. toConsider l cfg es = Inr w \<and> es \<noteq> [] \<longrightarrow>
         (\<exists>st''. requestHandler l cfg env req es st = Inr st'' \<and>
            dataset st'' = dataset st @ map (item_of cfg env req)
              (filter (\<lambda>e. \<not> push_fails env (item_of cfg env req e))
                 (newItems (if kv_read_fails env then None else cursor l req st) w)))))"
proof (rule conjI)
  show "filingTypes cfg \<noteq> [] \<and> [] \<notin> set (filingTypes cfg) \<and>
      requestHandler l cfg env req es st = Inr st' \<longrightarrow>
      (\<forall>a \<in> set (drop (length (dataset st)) (dataset st')). filingType a \<noteq> None) \<and>
      (\<forall>p \<in> set (drop (length (webhooks st)) (webhooks st')). p_filingType p \<noteq> None)"
  proof (rule impI)
    assume a: "filingTypes cfg \<noteq> [] \<and> [] \<notin> set (filingTypes cfg) \<and>
        requestHandler l cfg env req es st = Inr st'"
    then have st': "requestHandler l cfg env req es st = Inr st'" by simp
    from requestHandler_cases [OF st']
    show "(\<forall>a \<in> set (drop (length (dataset st)) (dataset st')). filingType a \<noteq> None) \<and>
        (\<forall>p \<in> set (drop (length (webhooks st)) (webhooks st')). p_filingType p \<noteq> None)"
    proof
      assume "es = [] \<and> st' = st"
      then show ?thesis by simp
    next
      assume "es \<noteq> [] \<and> (\<exists>w. toConsider l cfg es = Inr w)"
      then obtain w where ne: "es \<noteq> []" and w: "toConsider l cfg es = Inr w" by blast
      let ?acc = "filter (accepted cfg env req)
           (newItems (if kv_read_fails env then None else cursor l req st) w)"
      from st' have d: "dataset st' = dataset st @ map (item_of cfg env req) ?acc"
        and h: "webhooks st' = webhooks st @
             (if webhookUrl cfg \<noteq> [] then map (payload_of req) ?acc else [])"
        unfolding requestHandler_Inr [OF w ne] by auto
      have c: "\<forall>e \<in> set ?acc. detectFilingType (entry_title e) (entry_summary e) \<noteq> None"
        using a accepted_classified [of cfg env req] by auto
      have "\<forall>a \<in> set (drop (length (dataset st)) (dataset st')). filingType a \<noteq> None"
        using c by (auto simp: d filingType_item_of)
      moreover have "\<forall>p \<in> set (drop (length (webhooks st)) (webhooks st')). p_filingType p \<noteq> None"
        using c by (auto simp: h p_filingType_payload_of)
      ultimately show ?thesis by simp
    qed
  qed
next
  show "[] \<in> set (filingTypes cfg) \<longrightarrow>
      (\<forall>d. matches (filingTypes cfg) d) \<and>
      (\<forall>w. toConsider l cfg es = Inr w \<and> es \<noteq> [] \<longrightarrow>
         (\<exists>st''. requestHandler l cfg env req es st = Inr st'' \<and>
            dataset st'' = dataset st @ map (item_of cfg env req)
              (filter (\<lambda>e. \<not> push_fails env (item_of cfg env req e))
                 (newItems (if kv_read_fails env then None else cursor l req st) w))))"
  proof (rule impI)
    assume e: "[] \<in> set (filingTypes cfg)"
    then have m: "\<forall>d. matches (filingTypes cfg) d" by (simp add: matches_empty_token)
    from e have acc: "accepted cfg env req = (\<lambda>e. \<not> push_fails env (item_of cfg env req e))"
      by (auto simp: accepted_def passes_filter_def matches_empty_token)
    have "\<forall>w. toConsider l cfg es = Inr w \<and> es \<noteq> [] \<longrightarrow>
           (\<exists>st''. requestHandler l cfg env req es st = Inr st'' \<and>
              dataset st'' = dataset st @ map (item_of cfg env req)
                (filter (\<lambda>e. \<not> push_fails env (item_of cfg env req e))
                   (newItems (if kv_read_fails env then None else cursor l req st) w)))"
    proof (intro allI impI)
      fix w
      assume "toConsider l cfg es = Inr w \<and> es \<noteq> []"
      then have w: "toConsider l cfg es = Inr w" and ne: "es \<noteq> []" by simp_all
      show "\<exists>st''. requestHandler l cfg env req es st = Inr st'' \<and>
              dataset st'' = dataset st @ map (item_of cfg env req)
                (filter (\<lambda>e. \<not> push_fails env (item_of cfg env req e))
                   (newItems (if kv_read_fails env then None else cursor l req st) w))"
        unfolding requestHandler_Inr [OF w ne] acc by simp
    qed
    with m show "(\<forall>d. matches (filingTypes cfg) d) \<and>
      (\<forall>w. toConsider l cfg es = Inr w \<and> es \<noteq> [] \<longrightarrow>
         (\<exists>st''. requestHandler l cfg env req es st = Inr st'' \<and>
            dataset st'' = dataset st @ map (item_of cfg env req)
              (filter (\<lambda>e. \<not> push_fails env (item_of cfg env req e))
                 (newItems (if kv_read_fails env then None else cursor l req st) w))))"
      by (rule conjI)
  qed
qed


text \<open>A feed of two entries, the first of unknown type.\<close>

lemma two_window:
  "toConsider (sample_lib h) (default_config\<lparr> filingTypes := fts \<rparr>)
     [sample_raw ''urn:u1'' (Some ''unrelated announcement'') (Some ''2024-01-01T00:00:00Z''),
      sample_raw ''urn:k1'' (Some ''Annual report 10-K'') (Some ''2024-01-02T00:00:00Z'')]
   = Inr [sample_entry ''urn:u1'' (Some ''unrelated announcement'') (Some 1704067200000),
          sample_entry ''urn:k1'' (Some ''Annual report 10-K'') (Some 1704153600000)]"
  by (simp add: poll_eval)

lemma detect_unrelated: "detectFilingType (Some ''unrelated announcement'') None = None"
  by (simp add: classify_eval del: classify_del)

lemma detect_annual: "detectFilingType (Some ''Annual report 10-K'') None = Some ''10-K''"
  by (simp add: classify_eval del: classify_del)

lemma default_types:
  "filingTypes default_config = [''10-K'', ''10-Q'', ''8-K'']"
  "webhookUrl default_config = []" "maxEntriesPerFeed default_config = 50"
  "includeFullFiling default_config = False"
  by (simp_all add: default_config_def)

lemma matches_default_10K: "matches [''10-K'', ''10-Q'', ''8-K''] (Some ''10-K'')"
  by (simp add: matches_def toLowerCase_def lower_char_def or_default_def char_of_def)

lemma matches_default_None: "\<not> matches [''10-K'', ''10-Q'', ''8-K''] None"
  by (simp add: matches_None)

theorem C10_unknown_type_filter_witness:
  "\<forall>h. (\<exists>st'. requestHandler (sample_lib h) default_config io_ok apple_feed
            [sample_raw ''urn:u1'' (Some ''unrelated announcement'') (Some ''2024-01-01T00:00:00Z''),
             sample_raw ''urn:k1'' (Some ''Annual report 10-K'') (Some ''2024-01-02T00:00:00Z'')]
            empty_state = Inr st' \<and>
          map filingId (dataset st') = [''urn:k1''] \<and>
          map filingType (dataset st') = [Some ''10-K'']) \<and>
       (\<exists>st''. requestHandler (sample_lib h) (default_config\<lparr> filingTypes := [[]] \<rparr>) io_ok apple_feed
            [sample_raw ''urn:u1'' (Some ''unrelated announcement'') (Some ''2024-01-01T00:00:00Z''),
             sample_raw ''urn:k1'' (Some ''Annual report 10-K'') (Some ''2024-01-02T00:00:00Z'')]
            empty_state = Inr st'' \<and>
          map filingId (dataset st'') = [''urn:u1'', ''urn:k1''] \<and>
          map filingType (dataset st'') = [None, Some ''10-K''])"
proof
  fix h
  let ?es = "[sample_raw ''urn:u1'' (Some ''unrelated announcement'') (Some ''2024-01-01T00:00:00Z''),
             sample_raw ''urn:k1'' (Some ''Annual report 10-K'') (Some ''2024-01-02T00:00:00Z'')]"
  let ?w = "[sample_entry ''urn:u1'' (Some ''unrelated announcement'') (Some 1704067200000),
          sample_entry ''urn:k1'' (Some ''Annual report 10-K'') (Some 1704153600000)]"
  have w1: "toConsider (sample_lib h) default_config ?es = Inr ?w"
    using two_window [of h "filingTypes default_config"] by simp
  have ne: "?es \<noteq> []" by simp
  have p1: "requestHandler (sample_lib h) default_config io_ok apple_feed ?es empty_state
      = Inr \<lparr> kv = (kv empty_state)(feedKey (sample_lib h) (url apple_feed) \<mapsto>
                  Structured ''urn:k1'' (url apple_feed)),
              dataset = [item_of default_config io_ok apple_feed
                 (sample_entry ''urn:k1'' (Some ''Annual report 10-K'') (Some 1704153600000))],
              webhooks = [] \<rparr>"
    unfolding requestHandler_Inr [OF w1 ne]
    by (simp add: io_ok_simps cursor_empty_state empty_state_simps newItems_None
        accepted_def passes_filter_def sample_entry_simps detect_unrelated detect_annual
        default_types matches_default_10K matches_default_None)
  have p2: "requestHandler (sample_lib h) (default_config\<lparr> filingTypes := [[]] \<rparr>) io_ok apple_feed
        ?es empty_state
      = Inr \<lparr> kv = (kv empty_state)(feedKey (sample_lib h) (url apple_feed) \<mapsto>
                  Structured ''urn:k1'' (url apple_feed)),
              dataset = map (item_of (default_config\<lparr> filingTypes := [[]] \<rparr>) io_ok apple_feed) ?w,
              webhooks = [] \<rparr>"
    unfolding requestHandler_Inr [OF two_window ne]
    by (simp add: io_ok_simps cursor_empty_state empty_state_simps newItems_None
        accepted_def passes_filter_def sample_entry_simps matches_empty_token default_config_def)
  show "(\<exists>st'. requestHandler (sample_lib h) default_config io_ok apple_feed ?es
            empty_state = Inr st' \<and>
          map filingId (dataset st') = [''urn:k1''] \<and>
          map filingType (dataset st') = [Some ''10-K'']) \<and>
       (\<exists>st''. requestHandler (sample_lib h) (default_config\<lparr> filingTypes := [[]] \<rparr>) io_ok apple_feed
            ?es empty_state = Inr st'' \<and>
          map filingId (dataset st'') = [''urn:u1'', ''urn:k1''] \<and>
          map filingType (dataset st'') = [None, Some ''10-K''])"
    using C10_unknown_type_filter [of default_config "sample_lib h" io_ok apple_feed ?es empty_state
        "\<lparr> kv = (kv empty_state)(feedKey (sample_lib h) (url apple_feed) \<mapsto>
                  Structured ''urn:k1'' (url apple_feed)),
              dataset = [item_of default_config io_ok apple_feed
                 (sample_entry ''urn:k1'' (Some ''Annual report 10-K'') (Some 1704153600000))],
              webhooks = [] \<rparr>"]
    unfolding p1 p2
    by (simp add: item_of_def make_item_def sample_entry_simps detect_unrelated detect_annual)
qed

subsection \<open>The chronology of the window\<close>

lemma sorted_sort_entries: "sorted (map time_key (sort_entries ns))"
  by (simp add: sort_entries_def)

lemma sorted_slice_last: "sorted (map time_key xs) \<Longrightarrow> sorted (map time_key (slice_last m xs))"
  by (simp add: slice_last_def sorted_wrt_drop drop_map [symmetric] del: drop_map)

lemma toConsider_sorted:
  assumes "toConsider l cfg es = Inr w"
  shows "sorted (map time_key w)"
proof -
  from toConsider_Inr [OF assms] obtain ns
    where w: "w = slice_last (maxEntriesPerFeed cfg) (sort_entries ns)" by blast
  show ?thesis unfolding w by (rule sorted_slice_last [OF sorted_sort_entries])
qed

lemma sorted_le_last:
  assumes "sorted (map f xs)" and "x \<in> set xs"
  shows "f x \<le> f (last xs)"
proof -
  from assms(2) obtain i where i: "i < length xs" and x: "xs ! i = x"
    by (auto simp: in_set_conv_nth)
  then have ne: "xs \<noteq> []" by auto
  have "map f xs ! i \<le> map f xs ! (length xs - 1)"
    by (rule sorted_nth_mono [OF assms(1)]) (use i in auto)
  with i x ne show ?thesis by (simp add: last_conv_nth)
qed

text \<open>
  C3 (as amended). In a poll whose window holds the entry of the stored cursor and whose
  cursor write the store accepts, the cursor moves to the last entry of the window, and the
  time key of that entry is at least the time key of the cursor's entry: the cursor does not
  move to a chronologically older entry.
\<close>

theorem C3_cursor_monotone:
  assumes w: "toConsider l cfg es = Inr w" and ne: "es \<noteq> []"
    and wr: "\<not> kv_write_fails env"
    and c: "cursor l req st = Some c" and x: "x \<in> set w" and xc: "entry_id x = c"
  shows "\<exists>st'. requestHandler l cfg env req es st = Inr st' \<and>
           cursor l req st' = Some (entry_id (last w)) \<and>
           last w \<in> set w \<and> time_key x \<le> time_key (last w)"
proof -
  obtain st' where st': "requestHandler l cfg env req es st = Inr st'"
    by (simp add: requestHandler_Inr [OF w ne])
  have "cursor l req st' = Some (entry_id (last w))"
    using requestHandler_cursor [OF w ne st'] wr by simp
  moreover have "time_key x \<le> time_key (last w)"
    by (rule sorted_le_last [OF toConsider_sorted [OF w] x])
  moreover have "last w \<in> set w" using x by (cases w) auto
  ultimately show ?thesis using st' by blast
qed

text \<open>
  C5 (as amended). For every batch in which each timestamp is null, empty or a string that
  \<open>Date\<close> parses, normalisation succeeds on all entries and the sort orders the batch
  ascending by time value, stably, an entry without timestamp counting as time zero: it is
  placed before every entry whose time value is positive.
\<close>

theorem C5_sort_by_updated:
  assumes ok: "\<forall>e \<in> set es. truthy (raw_updated e) \<longrightarrow>
                  date_parse l (or_default (raw_updated e) []) \<noteq> None"
  shows "\<exists>ns. normalize_all l es = Inr ns \<and> length ns = length es \<and>
           map entry_updated ns =
             map (\<lambda>e. if truthy (raw_updated e)
                       then date_parse l (or_default (raw_updated e) []) else None) es \<and>
           mset (sort_entries ns) = mset ns \<and>
           sorted (map time_key (sort_entries ns)) \<and>
           (\<forall>k. filter (\<lambda>a. time_key a = k) (sort_entries ns) = filter (\<lambda>a. time_key a = k) ns) \<and>
           (\<forall>a \<in> set ns. entry_updated a = None \<longrightarrow> time_key a = 0) \<and>
           (\<forall>i j. i < length ns \<and> j < length ns \<and>
                  entry_updated (sort_entries ns ! i) = None \<and>
                  0 < time_key (sort_entries ns ! j) \<longrightarrow> i < j)"
proof -
  from ok have "\<exists>ns. normalize_all l es = Inr ns \<and>
      map entry_updated ns =
             map (\<lambda>e. if truthy (raw_updated e)
                       then date_parse l (or_default (raw_updated e) []) else None) es"
  proof (induction es)
    case Nil
    then show ?case by simp
  next
    case (Cons e es)
    then obtain ns where ns: "normalize_all l es = Inr ns" and
      u: "map entry_updated ns =
             map (\<lambda>e. if truthy (raw_updated e)
                       then date_parse l (or_default (raw_updated e) []) else None) es"
      by auto
    from Cons.prems have "truthy (raw_updated e) \<longrightarrow>
                  date_parse l (or_default (raw_updated e) []) \<noteq> None" by simp
    then obtain n where n: "normalize_entry l e = Inr n"
      and nu: "entry_updated n = (if truthy (raw_updated e)
                       then date_parse l (or_default (raw_updated e) []) else None)"
      by (cases "truthy (raw_updated e)") (auto simp: normalize_entry_def)
    from ns u n nu show ?case by simp
  qed
  then obtain ns where ns: "normalize_all l es = Inr ns" and
      u: "map entry_updated ns =
             map (\<lambda>e. if truthy (raw_updated e)
                       then date_parse l (or_default (raw_updated e) []) else None) es"
    by blast
  have len: "length ns = length es" by (rule normalize_all_length [OF ns])
  have srt: "sorted (map time_key (sort_entries ns))" by (rule sorted_sort_entries)
  have "\<forall>i j. i < length ns \<and> j < length ns \<and>
                  entry_updated (sort_entries ns ! i) = None \<and>
                  0 < time_key (sort_entries ns ! j) \<longrightarrow> i < j"
  proof (intro allI impI)
    fix i j
    assume a: "i < length ns \<and> j < length ns \<and>
                  entry_updated (sort_entries ns ! i) = None \<and>
                  0 < time_key (sort_entries ns ! j)"
    show "i < j"
    proof (rule ccontr)
      assume "\<not> i < j"
      then have "j \<le> i" by simp
      with a have "map time_key (sort_entries ns) ! j \<le> map time_key (sort_entries ns) ! i"
        by (intro sorted_nth_mono [OF srt]) (simp_all add: sort_entries_def)
      with a have "time_key (sort_entries ns ! j) \<le> time_key (sort_entries ns ! i)"
        by (simp add: sort_entries_def)
      moreover from a have "time_key (sort_entries ns ! i) = 0" by (simp add: time_key_def)
      ultimately show False using a by simp
    qed
  qed
  moreover have "\<forall>a \<in> set ns. entry_updated a = None \<longrightarrow> time_key a = 0"
    by (simp add: time_key_def)
  moreover have "mset (sort_entries ns) = mset ns" by (simp add: sort_entries_def)
  moreover have "\<forall>k. filter (\<lambda>a. time_key a = k) (sort_entries ns) = filter (\<lambda>a. time_key a = k) ns"
    by (simp add: sort_entries_def sort_key_stable)
  ultimately show ?thesis using ns u len srt by blast
qed

text \<open>
  C6 (as amended). For every non-zero integer \<open>maxEntriesPerFeed\<close> the window is the
  chronologically ordered batch without its oldest entries, cut to the most recent
  \<open>|maxEntriesPerFeed|\<close> entries, so its size never exceeds \<open>|maxEntriesPerFeed|\<close>. With
  \<open>maxEntriesPerFeed = 2\<close>, five entries and no prior cursor, the window is the two most
  recent entries and, when the store accepts the cursor write, the cursor moves to the most
  recent of them.
\<close>

theorem C6_window_cap:
  assumes m: "maxEntriesPerFeed cfg \<noteq> 0" and ns: "normalize_all l es = Inr ns"
  shows "toConsider l cfg es =
           Inr (drop (length es - nat \<bar>maxEntriesPerFeed cfg\<bar>) (sort_entries ns)) \<and>
         length (drop (length es - nat \<bar>maxEntriesPerFeed cfg\<bar>) (sort_entries ns)) =
           min (nat \<bar>maxEntriesPerFeed cfg\<bar>) (length es) \<and>
         int (length (drop (length es - nat \<bar>maxEntriesPerFeed cfg\<bar>) (sort_entries ns)))
           \<le> \<bar>maxEntriesPerFeed cfg\<bar> \<and>
         (\<forall>a \<in> set (take (length es - nat \<bar>maxEntriesPerFeed cfg\<bar>) (sort_entries ns)).
            \<forall>b \<in> set (drop (length es - nat \<bar>maxEntriesPerFeed cfg\<bar>) (sort_entries ns)).
              time_key a \<le> time_key b) \<and>
         (maxEntriesPerFeed cfg = 2 \<and> length es = 5 \<and> cursor l req st = None \<and>
            \<not> kv_write_fails env \<longrightarrow>
            toConsider l cfg es = Inr [sort_entries ns ! 3, sort_entries ns ! 4] \<and>
            (\<exists>st'. requestHandler l cfg env req es st = Inr st' \<and>
               cursor l req st' = Some (entry_id (sort_entries ns ! 4)) \<and>
               dataset st' = dataset st @ map (item_of cfg env req)
                  (filter (accepted cfg env req) [sort_entries ns ! 3, sort_entries ns ! 4])))"
proof -
  let ?k = "length es - nat \<bar>maxEntriesPerFeed cfg\<bar>"
  let ?s = "sort_entries ns"
  let ?w = "drop ?k ?s"
  have len: "length ns = length es" by (rule normalize_all_length [OF ns])
  have ls: "length ?s = length es" by (simp add: sort_entries_def len)
  have w: "toConsider l cfg es = Inr ?w"
    using m ns by (simp add: toConsider_def slice_last_def ls)
  have lw: "length ?w = min (nat \<bar>maxEntriesPerFeed cfg\<bar>) (length es)"
    by (simp add: ls)
  then have cap: "int (length ?w) \<le> \<bar>maxEntriesPerFeed cfg\<bar>" by arith
  have srt: "sorted (map time_key (take ?k ?s @ ?w))"
    using sorted_sort_entries [of ns] by simp
  have recent: "\<forall>a \<in> set (take ?k ?s). \<forall>b \<in> set ?w. time_key a \<le> time_key b"
    using srt unfolding map_append sorted_append by auto
  have five: "maxEntriesPerFeed cfg = 2 \<and> length es = 5 \<and> cursor l req st = None \<and>
              \<not> kv_write_fails env \<longrightarrow>
              toConsider l cfg es = Inr [?s ! 3, ?s ! 4] \<and>
              (\<exists>st'. requestHandler l cfg env req es st = Inr st' \<and>
                 cursor l req st' = Some (entry_id (?s ! 4)) \<and>
                 dataset st' = dataset st @ map (item_of cfg env req)
                    (filter (accepted cfg env req) [?s ! 3, ?s ! 4]))"
  proof (rule impI)
    assume a: "maxEntriesPerFeed cfg = 2 \<and> length es = 5 \<and> cursor l req st = None \<and>
              \<not> kv_write_fails env"
    then have l5: "length ?s = 5" using ls by simp
    then obtain a1 a2 a3 a4 a5 where s5: "?s = [a1, a2, a3, a4, a5]"
      by (auto simp: length_Suc_conv eval_nat_numeral)
    from a have k3: "?k = 3" by simp
    have w2: "?w = [?s ! 3, ?s ! 4]" unfolding k3 by (simp add: s5)
    from a have ne: "es \<noteq> []" by auto
    obtain st' where st': "requestHandler l cfg env req es st = Inr st'"
      by (simp add: requestHandler_Inr [OF w ne])
    have c: "cursor l req st' = Some (entry_id (?s ! 4))"
      using requestHandler_cursor [OF w ne st'] a unfolding w2 by simp
    have d: "dataset st' = dataset st @ map (item_of cfg env req)
                    (filter (accepted cfg env req) [?s ! 3, ?s ! 4])"
      using st' a unfolding requestHandler_Inr [OF w ne] w2 by (auto simp: newItems_None)
    from st' c d have "\<exists>st'. requestHandler l cfg env req es st = Inr st' \<and>
                 cursor l req st' = Some (entry_id (?s ! 4)) \<and>
                 dataset st' = dataset st @ map (item_of cfg env req)
                    (filter (accepted cfg env req) [?s ! 3, ?s ! 4])" by blast
    with w [unfolded w2] show "toConsider l cfg es = Inr [?s ! 3, ?s ! 4] \<and>
              (\<exists>st'. requestHandler l cfg env req es st = Inr st' \<and>
                 cursor l req st' = Some (entry_id (?s ! 4)) \<and>
                 dataset st' = dataset st @ map (item_of cfg env req)
                    (filter (accepted cfg env req) [?s ! 3, ?s ! 4]))" by (rule conjI)
  qed
  show ?thesis
    by (intro conjI) (rule w, rule lw, rule cap, rule recent, rule five)
qed

subsection \<open>Sample feeds\<close>

lemma detect_10K: "detectFilingType (Some ''10-K'') None = Some ''10-K''"
  by (simp add: classify_eval del: classify_del)

lemma accepted_sample_10K:
  "filingTypes cfg = [''10-K'', ''10-Q'', ''8-K''] \<Longrightarrow>
   accepted cfg io_ok req (sample_entry i (Some ''10-K'') u)"
  by (simp add: accepted_def passes_filter_def sample_entry_simps detect_10K matches_default_10K
      io_ok_simps)

lemma filingId_item_of: "filingId (item_of cfg env req e) = entry_id e"
  by (simp add: item_of_def make_item_def)

lemma cursor_record:
  "s \<noteq> [] \<Longrightarrow>
   cursor l req \<lparr> kv = m(feedKey l (url req) \<mapsto> Structured s f), dataset = ds, webhooks = ws \<rparr> = Some s"
  by (simp add: cursor_def read_last_seen_def)

lemma run_polls_step:
  assumes "toConsider l cfg es = Inr w" and "es \<noteq> []"
  shows "run_polls l cfg req ((io_ok, es) # ps) st =
     run_polls l cfg req ps
      \<lparr> kv = (kv st)(feedKey l (url req) \<mapsto> Structured (entry_id (last w)) (url req)),
        dataset = dataset st @ map (item_of cfg io_ok req)
               (filter (accepted cfg io_ok req) (newItems (cursor l req st) w)),
        webhooks = webhooks st @
               (if webhookUrl cfg \<noteq> [] then map (payload_of req)
                  (filter (accepted cfg io_ok req) (newItems (cursor l req st) w)) else []) \<rparr>"
  by (simp add: requestHandler_Inr [OF assms] io_ok_simps)

text \<open>A feed of five annual reports, newest first as a feed lists them.\<close>

lemma five_normalized:
  "normalize_all (sample_lib h)
     [sample_raw ''urn:5'' (Some ''10-K'') (Some ''2024-01-05T00:00:00Z''),
      sample_raw ''urn:4'' (Some ''10-K'') (Some ''2024-01-04T00:00:00Z''),
      sample_raw ''urn:3'' (Some ''10-K'') (Some ''2024-01-03T00:00:00Z''),
      sample_raw ''urn:2'' (Some ''10-K'') (Some ''2024-01-02T00:00:00Z''),
      sample_raw ''urn:1'' (Some ''10-K'') (Some ''2024-01-01T00:00:00Z'')]
   = Inr [sample_entry ''urn:5'' (Some ''10-K'') (Some 1704412800000),
          sample_entry ''urn:4'' (Some ''10-K'') (Some 1704326400000),
          sample_entry ''urn:3'' (Some ''10-K'') (Some 1704240000000),
          sample_entry ''urn:2'' (Some ''10-K'') (Some 1704153600000),
          sample_entry ''urn:1'' (Some ''10-K'') (Some 1704067200000)]"
  by (simp add: poll_eval)

lemma five_sorted:
  "sort_entries
         [sample_entry ''urn:5'' (Some ''10-K'') (Some 1704412800000),
          sample_entry ''urn:4'' (Some ''10-K'') (Some 1704326400000),
          sample_entry ''urn:3'' (Some ''10-K'') (Some 1704240000000),
          sample_entry ''urn:2'' (Some ''10-K'') (Some 1704153600000),
          sample_entry ''urn:1'' (Some ''10-K'') (Some 1704067200000)]
   =     [sample_entry ''urn:1'' (Some ''10-K'') (Some 1704067200000),
          sample_entry ''urn:2'' (Some ''10-K'') (Some 1704153600000),
          sample_entry ''urn:3'' (Some ''10-K'') (Some 1704240000000),
          sample_entry ''urn:4'' (Some ''10-K'') (Some 1704326400000),
          sample_entry ''urn:5'' (Some ''10-K'') (Some 1704412800000)]"
  by (simp add: sort_entries_def time_key_def sample_entry_simps)

theorem C6_window_cap_witness:
  "\<forall>h. \<exists>st'.
     toConsider (sample_lib h) (default_config\<lparr> maxEntriesPerFeed := 2 \<rparr>)
       [sample_raw ''urn:5'' (Some ''10-K'') (Some ''2024-01-05T00:00:00Z''),
        sample_raw ''urn:4'' (Some ''10-K'') (Some ''2024-01-04T00:00:00Z''),
        sample_raw ''urn:3'' (Some ''10-K'') (Some ''2024-01-03T00:00:00Z''),
        sample_raw ''urn:2'' (Some ''10-K'') (Some ''2024-01-02T00:00:00Z''),
        sample_raw ''urn:1'' (Some ''10-K'') (Some ''2024-01-01T00:00:00Z'')]
     = Inr [sample_entry ''urn:4'' (Some ''10-K'') (Some 1704326400000),
            sample_entry ''urn:5'' (Some ''10-K'') (Some 1704412800000)] \<and>
     requestHandler (sample_lib h) (default_config\<lparr> maxEntriesPerFeed := 2 \<rparr>) io_ok apple_feed
       [sample_raw ''urn:5'' (Some ''10-K'') (Some ''2024-01-05T00:00:00Z''),
        sample_raw ''urn:4'' (Some ''10-K'') (Some ''2024-01-04T00:00:00Z''),
        sample_raw ''urn:3'' (Some ''10-K'') (Some ''2024-01-03T00:00:00Z''),
        sample_raw ''urn:2'' (Some ''10-K'') (Some ''2024-01-02T00:00:00Z''),
        sample_raw ''urn:1'' (Some ''10-K'') (Some ''2024-01-01T00:00:00Z'')]
       empty_state = Inr st' \<and>
     cursor (sample_lib h) apple_feed st' = Some ''urn:5'' \<and>
     map filingId (dataset st') = [''urn:4'', ''urn:5'']"
proof
  fix h
  let ?cfg = "default_config\<lparr> maxEntriesPerFeed := 2 \<rparr>"
  let ?es = "[sample_raw ''urn:5'' (Some ''10-K'') (Some ''2024-01-05T00:00:00Z''),
        sample_raw ''urn:4'' (Some ''10-K'') (Some ''2024-01-04T00:00:00Z''),
        sample_raw ''urn:3'' (Some ''10-K'') (Some ''2024-01-03T00:00:00Z''),
        sample_raw ''urn:2'' (Some ''10-K'') (Some ''2024-01-02T00:00:00Z''),
        sample_raw ''urn:1'' (Some ''10-K'') (Some ''2024-01-01T00:00:00Z'')]"
  have m: "maxEntriesPerFeed ?cfg \<noteq> 0" by simp
  have ft: "filingTypes ?cfg = [''10-K'', ''10-Q'', ''8-K'']" by (simp add: default_types)
  have w: "toConsider (sample_lib h) ?cfg ?es =
      Inr [sample_entry ''urn:4'' (Some ''10-K'') (Some 1704326400000),
           sample_entry ''urn:5'' (Some ''10-K'') (Some 1704412800000)]"
    unfolding toConsider_def five_normalized sum.case five_sorted
    by (simp add: slice_last_def)
  have ne: "?es \<noteq> []" by simp
  have p: "requestHandler (sample_lib h) ?cfg io_ok apple_feed ?es empty_state =
      Inr \<lparr> kv = (kv empty_state)(feedKey (sample_lib h) (url apple_feed) \<mapsto>
                  Structured ''urn:5'' (url apple_feed)),
            dataset = map (item_of ?cfg io_ok apple_feed)
              [sample_entry ''urn:4'' (Some ''10-K'') (Some 1704326400000),
               sample_entry ''urn:5'' (Some ''10-K'') (Some 1704412800000)],
            webhooks = [] \<rparr>"
    unfolding requestHandler_Inr [OF w ne]
    by (simp add: io_ok_simps cursor_empty_state empty_state_simps newItems_None
        accepted_sample_10K [OF ft] sample_entry_simps default_types)
  have pre: "maxEntriesPerFeed ?cfg = 2 \<and> length ?es = 5 \<and>
      cursor (sample_lib h) apple_feed empty_state = None \<and> \<not> kv_write_fails io_ok"
    by (simp add: cursor_empty_state io_ok_simps)
  note T = C6_window_cap [OF m five_normalized [of h], of apple_feed empty_state io_ok,
      THEN conjunct2, THEN conjunct2, THEN conjunct2, THEN conjunct2, THEN mp, OF pre]
  show "\<exists>st'.
     toConsider (sample_lib h) ?cfg ?es
     = Inr [sample_entry ''urn:4'' (Some ''10-K'') (Some 1704326400000),
            sample_entry ''urn:5'' (Some ''10-K'') (Some 1704412800000)] \<and>
     requestHandler (sample_lib h) ?cfg io_ok apple_feed ?es empty_state = Inr st' \<and>
     cursor (sample_lib h) apple_feed st' = Some ''urn:5'' \<and>
     map filingId (dataset st') = [''urn:4'', ''urn:5'']"
    using T unfolding p w five_sorted
    by (simp add: cursor_record filingId_item_of sample_entry_simps empty_state_simps
        accepted_sample_10K [OF ft])
qed

text \<open>C6 as stated fails: with \<open>maxEntriesPerFeed = 0\<close> the window is the whole batch of five
  (\<open>slice(-0)\<close>), and with \<open>maxEntriesPerFeed = -2\<close> it holds two entries.\<close>

theorem C6_zero_and_negative_counterexample:
  "\<forall>h.
     toConsider (sample_lib h) (default_config\<lparr> maxEntriesPerFeed := 0 \<rparr>)
       [sample_raw ''urn:5'' (Some ''10-K'') (Some ''2024-01-05T00:00:00Z''),
        sample_raw ''urn:4'' (Some ''10-K'') (Some ''2024-01-04T00:00:00Z''),
        sample_raw ''urn:3'' (Some ''10-K'') (Some ''2024-01-03T00:00:00Z''),
        sample_raw ''urn:2'' (Some ''10-K'') (Some ''2024-01-02T00:00:00Z''),
        sample_raw ''urn:1'' (Some ''10-K'') (Some ''2024-01-01T00:00:00Z'')]
     = Inr [sample_entry ''urn:1'' (Some ''10-K'') (Some 1704067200000),
            sample_entry ''urn:2'' (Some ''10-K'') (Some 1704153600000),
            sample_entry ''urn:3'' (Some ''10-K'') (Some 1704240000000),
            sample_entry ''urn:4'' (Some ''10-K'') (Some 1704326400000),
            sample_entry ''urn:5'' (Some ''10-K'') (Some 1704412800000)] \<and>
     toConsider (sample_lib h) (default_config\<lparr> maxEntriesPerFeed := - 2 \<rparr>)
       [sample_raw ''urn:5'' (Some ''10-K'') (Some ''2024-01-05T00:00:00Z''),
        sample_raw ''urn:4'' (Some ''10-K'') (Some ''2024-01-04T00:00:00Z''),
        sample_raw ''urn:3'' (Some ''10-K'') (Some ''2024-01-03T00:00:00Z''),
        sample_raw ''urn:2'' (Some ''10-K'') (Some ''2024-01-02T00:00:00Z''),
        sample_raw ''urn:1'' (Some ''10-K'') (Some ''2024-01-01T00:00:00Z'')]
     = Inr [sample_entry ''urn:4'' (Some ''10-K'') (Some 1704326400000),
            sample_entry ''urn:5'' (Some ''10-K'') (Some 1704412800000)]"
  unfolding toConsider_def five_normalized sum.case five_sorted
  by (simp add: slice_last_def)

text \<open>A batch with an entry without timestamp listed after a dated one.\<close>

lemma undated_normalized:
  "normalize_all (sample_lib h)
     [sample_raw ''urn:2'' (Some ''10-K'') (Some ''2024-01-02T00:00:00Z''),
      sample_raw ''urn:0'' (Some ''10-K'') None]
   = Inr [sample_entry ''urn:2'' (Some ''10-K'') (Some 1704153600000),
          sample_entry ''urn:0'' (Some ''10-K'') None]"
  by (simp add: poll_eval)

lemma undated_sorted:
  "sort_entries [sample_entry ''urn:2'' (Some ''10-K'') (Some 1704153600000),
                 sample_entry ''urn:0'' (Some ''10-K'') None]
   = [sample_entry ''urn:0'' (Some ''10-K'') None,
      sample_entry ''urn:2'' (Some ''10-K'') (Some 1704153600000)]"
  by (simp add: sort_entries_def time_key_def sample_entry_simps)

theorem C5_sort_by_updated_witness:
  "\<forall>h. \<exists>ns. normalize_all (sample_lib h)
            [sample_raw ''urn:2'' (Some ''10-K'') (Some ''2024-01-02T00:00:00Z''),
             sample_raw ''urn:0'' (Some ''10-K'') None] = Inr ns \<and>
          sort_entries ns = [sample_entry ''urn:0'' (Some ''10-K'') None,
                             sample_entry ''urn:2'' (Some ''10-K'') (Some 1704153600000)] \<and>
          sorted (map time_key (sort_entries ns))"
proof
  fix h
  have ok: "\<forall>e \<in> set [sample_raw ''urn:2'' (Some ''10-K'') (Some ''2024-01-02T00:00:00Z''),
             sample_raw ''urn:0'' (Some ''10-K'') None].
      truthy (raw_updated e) \<longrightarrow> date_parse (sample_lib h) (or_default (raw_updated e) []) \<noteq> None"
    by (simp add: sample_raw_def sample_lib_def sample_dates_def truthy_def or_default_def)
  show "\<exists>ns. normalize_all (sample_lib h)
            [sample_raw ''urn:2'' (Some ''10-K'') (Some ''2024-01-02T00:00:00Z''),
             sample_raw ''urn:0'' (Some ''10-K'') None] = Inr ns \<and>
          sort_entries ns = [sample_entry ''urn:0'' (Some ''10-K'') None,
                             sample_entry ''urn:2'' (Some ''10-K'') (Some 1704153600000)] \<and>
          sorted (map time_key (sort_entries ns))"
    using C5_sort_by_updated [OF ok] unfolding undated_normalized
    by (simp add: undated_sorted)
qed

text \<open>A timestamp that is no date, and an entry from before the epoch.\<close>

lemma invalid_date_throws:
  "toConsider (sample_lib h) cfg [sample_raw ''urn:9'' (Some ''10-K'') (Some ''not a date'')]
     = Inl RangeError"
  by (simp add: toConsider_def normalize_entry_def sample_raw_def sample_lib_def sample_dates_def
      truthy_def or_default_def)

lemma before_epoch_normalized:
  "normalize_all (sample_lib h)
     [sample_raw ''urn:0'' (Some ''10-K'') None,
      sample_raw ''urn:old'' (Some ''10-K'') (Some ''1969-12-31T23:59:59Z'')]
   = Inr [sample_entry ''urn:0'' (Some ''10-K'') None,
          sample_entry ''urn:old'' (Some ''10-K'') (Some (- 1000))]"
  by (simp add: poll_eval)

lemma before_epoch_sorted:
  "sort_entries [sample_entry ''urn:0'' (Some ''10-K'') None,
                 sample_entry ''urn:old'' (Some ''10-K'') (Some (- 1000))]
   = [sample_entry ''urn:old'' (Some ''10-K'') (Some (- 1000)),
      sample_entry ''urn:0'' (Some ''10-K'') None]"
  by (simp add: sort_entries_def time_key_def sample_entry_simps)

text \<open>C5 as stated fails: a timestamp that \<open>Date\<close> cannot parse makes the handler throw, and an
  entry without timestamp is placed after an entry dated before the epoch.\<close>

theorem C5_invalid_date_and_epoch_counterexample:
  "\<forall>h. requestHandler (sample_lib h) default_config io_ok apple_feed
          [sample_raw ''urn:9'' (Some ''10-K'') (Some ''not a date'')] empty_state
        = Inl RangeError \<and>
       toConsider (sample_lib h) default_config
          [sample_raw ''urn:0'' (Some ''10-K'') None,
           sample_raw ''urn:old'' (Some ''10-K'') (Some ''1969-12-31T23:59:59Z'')]
        = Inr [sample_entry ''urn:old'' (Some ''10-K'') (Some (- 1000)),
               sample_entry ''urn:0'' (Some ''10-K'') None]"
proof
  fix h
  have "requestHandler (sample_lib h) default_config io_ok apple_feed
          [sample_raw ''urn:9'' (Some ''10-K'') (Some ''not a date'')] empty_state
        = Inl RangeError"
    by (rule requestHandler_Inl [OF invalid_date_throws]) simp
  moreover have "toConsider (sample_lib h) default_config
          [sample_raw ''urn:0'' (Some ''10-K'') None,
           sample_raw ''urn:old'' (Some ''10-K'') (Some ''1969-12-31T23:59:59Z'')]
        = Inr [sample_entry ''urn:old'' (Some ''10-K'') (Some (- 1000)),
               sample_entry ''urn:0'' (Some ''10-K'') None]"
    unfolding toConsider_def before_epoch_normalized sum.case before_epoch_sorted
    by (simp add: slice_last_def default_types)
  ultimately show "requestHandler (sample_lib h) default_config io_ok apple_feed
          [sample_raw ''urn:9'' (Some ''10-K'') (Some ''not a date'')] empty_state
        = Inl RangeError \<and>
       toConsider (sample_lib h) default_config
          [sample_raw ''urn:0'' (Some ''10-K'') None,
           sample_raw ''urn:old'' (Some ''10-K'') (Some ''1969-12-31T23:59:59Z'')]
        = Inr [sample_entry ''urn:old'' (Some ''10-K'') (Some (- 1000)),
               sample_entry ''urn:0'' (Some ''10-K'') None]"
    by (rule conjI)
qed

text \<open>A feed of two entries, and the same feed after its newer entry is gone.\<close>

lemma pair_window:
  "toConsider (sample_lib h) default_config
     [sample_raw ''urn:2'' (Some ''10-K'') (Some ''2024-01-02T00:00:00Z''),
      sample_raw ''urn:1'' (Some ''10-K'') (Some ''2024-01-01T00:00:00Z'')]
   = Inr [sample_entry ''urn:1'' (Some ''10-K'') (Some 1704067200000),
          sample_entry ''urn:2'' (Some ''10-K'') (Some 1704153600000)]"
  by (simp add: poll_eval)

lemma single_window:
  "toConsider (sample_lib h) default_config
     [sample_raw ''urn:1'' (Some ''10-K'') (Some ''2024-01-01T00:00:00Z'')]
   = Inr [sample_entry ''urn:1'' (Some ''10-K'') (Some 1704067200000)]"
  by (simp add: poll_eval)

lemma findIndex_sample:
  "findIndex c (sample_entry i t u # xs) =
     (if i = c then Some 0 else (case findIndex c xs of None \<Rightarrow> None | Some k \<Rightarrow> Some (Suc k)))"
  by (simp add: sample_entry_simps)

theorem C3_cursor_monotone_witness:
  "\<forall>h. \<exists>st'. requestHandler (sample_lib h) default_config io_ok apple_feed
           [sample_raw ''urn:2'' (Some ''10-K'') (Some ''2024-01-02T00:00:00Z''),
            sample_raw ''urn:1'' (Some ''10-K'') (Some ''2024-01-01T00:00:00Z'')]
           \<lparr> kv = [feedKey (sample_lib h) (url apple_feed) \<mapsto> Structured ''urn:1'' (url apple_feed)],
             dataset = [], webhooks = [] \<rparr> = Inr st' \<and>
         cursor (sample_lib h) apple_feed st' = Some ''urn:2'' \<and>
         time_key (sample_entry ''urn:1'' (Some ''10-K'') (Some 1704067200000))
           \<le> time_key (sample_entry ''urn:2'' (Some ''10-K'') (Some 1704153600000))"
proof
  fix h
  let ?st = "\<lparr> kv = [feedKey (sample_lib h) (url apple_feed) \<mapsto> Structured ''urn:1'' (url apple_feed)],
             dataset = [], webhooks = [] \<rparr>"
  have ne: "[sample_raw ''urn:2'' (Some ''10-K'') (Some ''2024-01-02T00:00:00Z''),
            sample_raw ''urn:1'' (Some ''10-K'') (Some ''2024-01-01T00:00:00Z'')] \<noteq> []" by simp
  have wr: "\<not> kv_write_fails io_ok" by (simp add: io_ok_simps)
  have c: "cursor (sample_lib h) apple_feed ?st = Some ''urn:1''"
    by (simp add: cursor_record)
  have x: "sample_entry ''urn:1'' (Some ''10-K'') (Some 1704067200000)
      \<in> set [sample_entry ''urn:1'' (Some ''10-K'') (Some 1704067200000),
          sample_entry ''urn:2'' (Some ''10-K'') (Some 1704153600000)]" by simp
  have xc: "entry_id (sample_entry ''urn:1'' (Some ''10-K'') (Some 1704067200000)) = ''urn:1''"
    by (simp add: sample_entry_simps)
  show "\<exists>st'. requestHandler (sample_lib h) default_config io_ok apple_feed
           [sample_raw ''urn:2'' (Some ''10-K'') (Some ''2024-01-02T00:00:00Z''),
            sample_raw ''urn:1'' (Some ''10-K'') (Some ''2024-01-01T00:00:00Z'')]
           ?st = Inr st' \<and>
         cursor (sample_lib h) apple_feed st' = Some ''urn:2'' \<and>
         time_key (sample_entry ''urn:1'' (Some ''10-K'') (Some 1704067200000))
           \<le> time_key (sample_entry ''urn:2'' (Some ''10-K'') (Some 1704153600000))"
    using C3_cursor_monotone [OF pair_window ne wr c x xc]
    by (simp add: sample_entry_simps)
qed

text \<open>C3 as stated fails: after a poll of two entries the cursor is the newer one; when the
  next poll sees only the older entry, the cursor moves back to it.\<close>

theorem C3_older_entry_counterexample:
  "\<forall>h. cursor (sample_lib h) apple_feed
          (run_polls (sample_lib h) default_config apple_feed
            [(io_ok, [sample_raw ''urn:2'' (Some ''10-K'') (Some ''2024-01-02T00:00:00Z''),
                      sample_raw ''urn:1'' (Some ''10-K'') (Some ''2024-01-01T00:00:00Z'')])]
            empty_state) = Some ''urn:2'' \<and>
       cursor (sample_lib h) apple_feed
          (run_polls (sample_lib h) default_config apple_feed
            [(io_ok, [sample_raw ''urn:2'' (Some ''10-K'') (Some ''2024-01-02T00:00:00Z''),
                      sample_raw ''urn:1'' (Some ''10-K'') (Some ''2024-01-01T00:00:00Z'')]),
             (io_ok, [sample_raw ''urn:1'' (Some ''10-K'') (Some ''2024-01-01T00:00:00Z'')])]
            empty_state) = Some ''urn:1''"
  by (simp add: run_polls_step [OF pair_window] run_polls_step [OF single_window]
      cursor_record sample_entry_simps del: run_polls.simps(2))

subsection \<open>Repeated polls\<close>

lemma findIndex_last:
  assumes "w \<noteq> []" and "entry_id (last w) \<notin> entry_id ` set (butlast w)"
  shows "findIndex (entry_id (last w)) w = Some (length w - 1)"
proof -
  have "\<forall>j<length w - 1. entry_id (w ! j) \<noteq> entry_id (last w)"
  proof (intro allI impI)
    fix j assume j: "j < length w - 1"
    then have eq: "butlast w ! j = w ! j" by (simp add: nth_butlast)
    from j have "butlast w ! j \<in> set (butlast w)" by simp
    then have "entry_id (butlast w ! j) \<in> entry_id ` set (butlast w)" by (rule imageI)
    with assms(2) have "entry_id (butlast w ! j) \<noteq> entry_id (last w)" by metis
    with eq show "entry_id (w ! j) \<noteq> entry_id (last w)" by simp
  qed
  with assms(1) show ?thesis by (simp add: findIndex_Some last_conv_nth)
qed

lemma newItems_after_poll:
  assumes "w \<noteq> []" and "entry_id (last w) \<notin> entry_id ` set (butlast w)"
    and "entry_id (last w) \<noteq> []"
  shows "newItems (Some (entry_id (last w))) w = []"
  using assms by (simp add: newItems_Some findIndex_last)

text \<open>
  C9 (as amended). Polling a feed twice with the same entries adds no record and posts no
  payload in the second poll, provided the id of the most recent window entry occurs only once
  in the window, the store accepts the cursor write of the first poll and serves the cursor
  read of the second. A first poll that throws is followed by a second that throws.
\<close>

theorem C9_second_poll_silent:
  assumes uniq: "\<forall>w. toConsider l cfg es = Inr w \<longrightarrow>
                    entry_id (last w) \<notin> entry_id ` set (butlast w)"
    and wr: "\<not> kv_write_fails env1" and rd: "\<not> kv_read_fails env2"
  shows "(\<forall>st1. requestHandler l cfg env1 req es st = Inr st1 \<longrightarrow>
            (\<exists>st2. requestHandler l cfg env2 req es st1 = Inr st2 \<and>
                   dataset st2 = dataset st1 \<and> webhooks st2 = webhooks st1)) \<and>
         (\<forall>err. requestHandler l cfg env1 req es st = Inl err \<longrightarrow>
            (\<forall>st1. requestHandler l cfg env2 req es st1 = Inl err))"
proof (cases "es = []")
  case True
  then show ?thesis by (simp add: requestHandler_empty)
next
  case ne: False
  show ?thesis
  proof (cases "toConsider l cfg es")
    case (Inl err)
    then show ?thesis using ne by (simp add: requestHandler_Inl)
  next
    case (Inr w)
    have wne: "w \<noteq> []" by (rule toConsider_nonempty [OF Inr ne])
    then have "last w \<in> set w" by simp
    then have idne: "entry_id (last w) \<noteq> []" by (rule toConsider_ids_nonempty [OF Inr])
    from uniq Inr have u: "entry_id (last w) \<notin> entry_id ` set (butlast w)" by simp
    have "\<exists>st2. requestHandler l cfg env2 req es st1 = Inr st2 \<and>
                   dataset st2 = dataset st1 \<and> webhooks st2 = webhooks st1"
      if st1: "requestHandler l cfg env1 req es st = Inr st1" for st1
    proof -
      have c: "cursor l req st1 = Some (entry_id (last w))"
        using requestHandler_cursor [OF Inr ne st1] wr by simp
      show ?thesis
        unfolding requestHandler_Inr [OF Inr ne]
        using rd by (simp add: c newItems_after_poll [OF wne u idne])
    qed
    moreover have "\<forall>err. requestHandler l cfg env1 req es st \<noteq> Inl err"
      by (simp add: requestHandler_Inr [OF Inr ne])
    ultimately show ?thesis by simp
  qed
qed

subsection \<open>Orderly runs\<close>

lemma strict_ids_distinct:
  assumes "window_ordered pos w"
  shows "distinct (map entry_id w)"
proof -
  from assms have "sorted_wrt (<) (map (\<lambda>a. pos (entry_id a)) w)"
    by (simp add: window_ordered_def sorted_wrt_map)
  then have "distinct (map (\<lambda>a. pos (entry_id a)) w)"
    by (simp add: strict_sorted_iff)
  then have "distinct (map pos (map entry_id w))" by (simp add: comp_def)
  then show ?thesis by (rule distinct_map [THEN iffD1, THEN conjunct1])
qed

lemma window_ordered_le_last:
  assumes "window_ordered pos w" and "x \<in> set w"
  shows "pos (entry_id x) \<le> pos (entry_id (last w))"
proof -
  from assms(1) have "sorted_wrt (<) (map (\<lambda>a. pos (entry_id a)) w)"
    by (simp add: window_ordered_def sorted_wrt_map)
  then have "sorted (map (\<lambda>a. pos (entry_id a)) w)"
    by (simp add: strict_sorted_iff)
  from sorted_le_last [OF this assms(2)] show ?thesis .
qed

lemma window_ordered_drop: "window_ordered pos w \<Longrightarrow> window_ordered pos (drop n w)"
  by (simp add: window_ordered_def sorted_wrt_drop)

lemma window_ordered_filter: "window_ordered pos w \<Longrightarrow> window_ordered pos (filter P w)"
  by (simp add: window_ordered_def sorted_wrt_filter)

lemma newItems_ordered: "window_ordered pos w \<Longrightarrow> window_ordered pos (newItems c w)"
  by (auto simp: newItems_def window_ordered_drop split: option.splits)

lemma newItems_newer:
  assumes ord: "window_ordered pos w" and cu: "catches_up pos (Some c) w"
    and cne: "c \<noteq> []" and e: "e \<in> set (newItems (Some c) w)"
  shows "pos c < pos (entry_id e)"
proof (cases "findIndex c w")
  case None
  then have "c \<notin> entry_id ` set w" by (simp add: findIndex_None)
  with cu have all: "\<forall>e \<in> set w. pos c < pos (entry_id e)" by (simp add: catches_up_def)
  from None cne e have "e \<in> set w" by (simp add: newItems_Some)
  with all show ?thesis by simp
next
  case (Some i)
  then have i: "i < length w" and ci: "entry_id (w ! i) = c" by (simp_all add: findIndex_Some)
  from Some cne e have "e \<in> set (drop (Suc i) w)" by (simp add: newItems_Some)
  then obtain j where j: "j < length w - Suc i" and ej: "e = w ! (Suc i + j)"
    by (auto simp: in_set_conv_nth)
  have "pos (entry_id (w ! i)) < pos (entry_id (w ! (Suc i + j)))"
    using ord j i unfolding window_ordered_def
    by (intro sorted_wrt_nth_less [where P = "\<lambda>a b. pos (entry_id a) < pos (entry_id b)"]) auto
  with ci ej show ?thesis by simp
qed

lemma cursor_nonempty: "cursor l req st = Some c \<Longrightarrow> c \<noteq> []"
  unfolding cursor_def by (rule read_last_seen_nonempty)

lemma feedUrl_item_of: "feedUrl (item_of cfg env req e) = url req"
  by (simp add: item_of_def make_item_def)

lemma map_filingId_item_of: "map filingId (map (item_of cfg env req) xs) = map entry_id xs"
  by (simp add: filingId_item_of)

lemma settled_step:
  assumes inv: "settled pos l req st"
    and rd: "\<not> kv_read_fails env" and wr: "\<not> kv_write_fails env"
    and w: "toConsider l cfg es = Inr w" and ne: "es \<noteq> []"
    and ord: "window_ordered pos w" and cu: "catches_up pos (cursor l req st) w"
    and st': "requestHandler l cfg env req es st = Inr st'"
  shows "settled pos l req st'"
proof -
  let ?new = "newItems (cursor l req st) w"
  let ?em = "filter (accepted cfg env req) ?new"
  have wne: "w \<noteq> []" by (rule toConsider_nonempty [OF w ne])
  then have lastw: "last w \<in> set w" by simp
  have d: "dataset st' = dataset st @ map (item_of cfg env req) ?em"
    using st' rd unfolding requestHandler_Inr [OF w ne] by auto
  have c': "cursor l req st' = Some (entry_id (last w))"
    using requestHandler_cursor [OF w ne st'] wr by simp
  have em_w: "set ?em \<subseteq> set w" using set_newItems [of "cursor l req st" w] by auto
  have em_new: "set ?em \<subseteq> set ?new" by auto
  have "window_ordered pos ?em"
    by (intro window_ordered_filter newItems_ordered ord)
  then have dist_em: "distinct (map entry_id ?em)" by (rule strict_ids_distinct)
  have newer: "pos c < pos (entry_id e)" if "cursor l req st = Some c" and "e \<in> set ?em" for c e
  proof -
    from that(1) have cne: "c \<noteq> []" by (rule cursor_nonempty)
    from that(2) em_new have "e \<in> set (newItems (Some c) w)" unfolding that(1) by auto
    from newItems_newer [OF ord cu [unfolded that(1)] cne this] show ?thesis .
  qed
  have le_last: "pos c \<le> pos (entry_id (last w))" if cs: "cursor l req st = Some c" for c
  proof -
    from cu have "c \<in> entry_id ` set w \<or> (\<forall>e \<in> set w. pos c < pos (entry_id e))"
      by (simp add: catches_up_def cs)
    then show ?thesis
    proof
      assume "c \<in> entry_id ` set w"
      then obtain x where "x \<in> set w" and "entry_id x = c" by auto
      with window_ordered_le_last [OF ord] show ?thesis by auto
    next
      assume "\<forall>e \<in> set w. pos c < pos (entry_id e)"
      with lastw have "pos c < pos (entry_id (last w))" by simp
      then show ?thesis by simp
    qed
  qed
  have old: "\<exists>c. cursor l req st = Some c \<and> (\<forall>a \<in> set (dataset st). pos (filingId a) \<le> pos c)"
    if "dataset st \<noteq> []"
    using inv that by (simp add: settled_def)
  have disj: "filingId a \<noteq> entry_id e" if a: "a \<in> set (dataset st)" and e: "e \<in> set ?em" for a e
  proof -
    from a have "dataset st \<noteq> []" by auto
    from old [OF this] obtain c where cs: "cursor l req st = Some c"
      and b: "\<forall>a \<in> set (dataset st). pos (filingId a) \<le> pos c" by blast
    from b a have "pos (filingId a) \<le> pos c" by simp
    also have "pos c < pos (entry_id e)" by (rule newer [OF cs e])
    finally show ?thesis by auto
  qed
  have 1: "distinct (map filingId (dataset st'))"
  proof -
    have "distinct (map filingId (dataset st))" using inv by (simp add: settled_def)
    moreover have "distinct (map filingId (map (item_of cfg env req) ?em))"
      unfolding map_filingId_item_of by (rule dist_em)
    moreover have "set (map filingId (dataset st)) \<inter> set (map filingId (map (item_of cfg env req) ?em)) = {}"
      unfolding map_filingId_item_of using disj by auto
    ultimately show ?thesis unfolding d map_append by (simp only: distinct_append simp_thms)
  qed
  have 2: "\<forall>a \<in> set (dataset st'). feedUrl a = url req"
    using inv by (auto simp: d settled_def feedUrl_item_of)
  have 3: "\<forall>a \<in> set (dataset st'). pos (filingId a) \<le> pos (entry_id (last w))"
  proof
    fix a assume "a \<in> set (dataset st')"
    then consider "a \<in> set (dataset st)" | e where "e \<in> set ?em" and "a = item_of cfg env req e"
      unfolding d by auto
    then show "pos (filingId a) \<le> pos (entry_id (last w))"
    proof cases
      case 1
      then have "dataset st \<noteq> []" by auto
      from old [OF this] obtain c where cs: "cursor l req st = Some c"
        and b: "\<forall>a \<in> set (dataset st). pos (filingId a) \<le> pos c" by blast
      from b 1 have "pos (filingId a) \<le> pos c" by simp
      also have "pos c \<le> pos (entry_id (last w))" by (rule le_last [OF cs])
      finally show ?thesis .
    next
      case 2
      from 2(1) em_w have "e \<in> set w" by auto
      from window_ordered_le_last [OF ord this] 2(2) show ?thesis
        by (simp add: filingId_item_of)
    qed
  qed
  from 1 2 3 c' show ?thesis by (simp add: settled_def)
qed

lemma settled_run:
  "settled pos l req st \<Longrightarrow> orderly_run pos l cfg req ps st \<Longrightarrow>
   settled pos l req (run_polls l cfg req ps st)"
proof (induction ps arbitrary: st)
  case Nil
  then show ?case by simp
next
  case (Cons p ps)
  obtain env es where p: "p = (env, es)" by (cases p)
  let ?st1 = "run_polls l cfg req [(env, es)] st"
  from Cons.prems(2) have rd: "\<not> kv_read_fails env" and wr: "\<not> kv_write_fails env"
    and win: "case toConsider l cfg es of Inl err \<Rightarrow> True
              | Inr w \<Rightarrow> window_ordered pos w \<and> catches_up pos (cursor l req st) w"
    and rest: "orderly_run pos l cfg req ps ?st1"
    by (simp_all add: p)
  have s1: "settled pos l req ?st1"
  proof (cases "requestHandler l cfg env req es st")
    case (Inl err)
    then show ?thesis using Cons.prems(1) by simp
  next
    case (Inr st')
    from requestHandler_cases [OF Inr] show ?thesis
    proof
      assume "es = [] \<and> st' = st"
      with Inr Cons.prems(1) show ?thesis by simp
    next
      assume "es \<noteq> [] \<and> (\<exists>w. toConsider l cfg es = Inr w)"
      then obtain w where ne: "es \<noteq> []" and w: "toConsider l cfg es = Inr w" by blast
      from win w have ord: "window_ordered pos w" and cu: "catches_up pos (cursor l req st) w"
        by simp_all
      from settled_step [OF Cons.prems(1) rd wr w ne ord cu Inr] Inr show ?thesis by simp
    qed
  qed
  have "run_polls l cfg req (p # ps) st = run_polls l cfg req ps ?st1"
    by (simp add: p split: sum.splits)
  with Cons.IH [OF s1 rest] show ?case by simp
qed

text \<open>
  C1 (as amended). In an orderly run of polls of one feed that starts with an empty dataset
  (no cursor read or write is rejected, every window is strictly ascending in one chronology
  of ids and holds the stored cursor or lies entirely after it), no pair of feed address and
  filing id occurs in more than one record of the dataset.
\<close>

theorem C1_no_duplicate_alerts:
  assumes fresh: "dataset st = []" and run: "orderly_run pos l cfg req ps st"
  shows "distinct (map (\<lambda>a. (feedUrl a, filingId a)) (dataset (run_polls l cfg req ps st)))"
proof -
  from fresh have "settled pos l req st" by (simp add: settled_def)
  from settled_run [OF this run]
  have "distinct (map filingId (dataset (run_polls l cfg req ps st)))"
    by (simp add: settled_def)
  then have "distinct (map snd (map (\<lambda>a. (feedUrl a, filingId a)) (dataset (run_polls l cfg req ps st))))"
    by (simp add: comp_def)
  then show ?thesis by (rule distinct_map [THEN iffD1, THEN conjunct1])
qed

lemma sample_pos_simps:
  "sample_pos ''urn:1'' = 1" "sample_pos ''urn:2'' = 2" "sample_pos ''urn:3'' = 3"
  "sample_pos ''urn:4'' = 4" "sample_pos ''urn:5'' = 5"
  by (simp_all add: sample_pos_def)

lemma newItems_sample:
  "newItems (Some c) (sample_entry i t u # xs) =
     (if c = [] then sample_entry i t u # xs
      else if i = c then xs
      else (case findIndex c xs of None \<Rightarrow> sample_entry i t u # xs | Some k \<Rightarrow> drop (Suc k) xs))"
  by (simp add: newItems_def truthy_def or_default_def sample_entry_simps split: option.splits)

lemma pair_first_poll:
  "requestHandler (sample_lib h) default_config io_ok apple_feed
     [sample_raw ''urn:2'' (Some ''10-K'') (Some ''2024-01-02T00:00:00Z''),
      sample_raw ''urn:1'' (Some ''10-K'') (Some ''2024-01-01T00:00:00Z'')] empty_state
   = Inr \<lparr> kv = (kv empty_state)(feedKey (sample_lib h) (url apple_feed) \<mapsto>
                  Structured ''urn:2'' (url apple_feed)),
           dataset = map (item_of default_config io_ok apple_feed)
              [sample_entry ''urn:1'' (Some ''10-K'') (Some 1704067200000),
               sample_entry ''urn:2'' (Some ''10-K'') (Some 1704153600000)],
           webhooks = [] \<rparr>"
proof -
  have ne: "[sample_raw ''urn:2'' (Some ''10-K'') (Some ''2024-01-02T00:00:00Z''),
      sample_raw ''urn:1'' (Some ''10-K'') (Some ''2024-01-01T00:00:00Z'')] \<noteq> []" by simp
  show ?thesis
    unfolding requestHandler_Inr [OF pair_window ne]
    by (simp add: io_ok_simps cursor_empty_state empty_state_simps newItems_None
        accepted_sample_10K sample_entry_simps default_types)
qed

theorem C9_second_poll_silent_witness:
  "\<forall>h. \<exists>st1 st2.
      requestHandler (sample_lib h) default_config io_ok apple_feed
        [sample_raw ''urn:2'' (Some ''10-K'') (Some ''2024-01-02T00:00:00Z''),
         sample_raw ''urn:1'' (Some ''10-K'') (Some ''2024-01-01T00:00:00Z'')] empty_state = Inr st1 \<and>
      requestHandler (sample_lib h) default_config io_ok apple_feed
        [sample_raw ''urn:2'' (Some ''10-K'') (Some ''2024-01-02T00:00:00Z''),
         sample_raw ''urn:1'' (Some ''10-K'') (Some ''2024-01-01T00:00:00Z'')] st1 = Inr st2 \<and>
      map filingId (dataset st1) = [''urn:1'', ''urn:2''] \<and>
      dataset st2 = dataset st1"
proof
  fix h
  let ?es = "[sample_raw ''urn:2'' (Some ''10-K'') (Some ''2024-01-02T00:00:00Z''),
         sample_raw ''urn:1'' (Some ''10-K'') (Some ''2024-01-01T00:00:00Z'')]"
  let ?s1 = "\<lparr> kv = (kv empty_state)(feedKey (sample_lib h) (url apple_feed) \<mapsto>
                  Structured ''urn:2'' (url apple_feed)),
           dataset = map (item_of default_config io_ok apple_feed)
              [sample_entry ''urn:1'' (Some ''10-K'') (Some 1704067200000),
               sample_entry ''urn:2'' (Some ''10-K'') (Some 1704153600000)],
           webhooks = [] \<rparr>"
  have uniq: "\<forall>w. toConsider (sample_lib h) default_config ?es = Inr w \<longrightarrow>
      entry_id (last w) \<notin> entry_id ` set (butlast w)"
    unfolding pair_window by (simp add: sample_entry_simps)
  have ok: "\<not> kv_write_fails io_ok" "\<not> kv_read_fails io_ok" by (simp_all add: io_ok_simps)
  note T = C9_second_poll_silent [OF uniq ok, THEN conjunct1, rule_format,
      of apple_feed empty_state ?s1, OF pair_first_poll]
  from T obtain st2 where a: "requestHandler (sample_lib h) default_config io_ok apple_feed ?es ?s1 = Inr st2"
    and b: "dataset st2 = dataset ?s1" by (elim exE conjE)
  have c: "map filingId (dataset ?s1) = [''urn:1'', ''urn:2'']"
    by (simp add: filingId_item_of sample_entry_simps)
  from pair_first_poll [of h] a c b
  show "\<exists>st1 st2.
      requestHandler (sample_lib h) default_config io_ok apple_feed ?es empty_state = Inr st1 \<and>
      requestHandler (sample_lib h) default_config io_ok apple_feed ?es st1 = Inr st2 \<and>
      map filingId (dataset st1) = [''urn:1'', ''urn:2''] \<and>
      dataset st2 = dataset st1"
    by (intro exI conjI)
qed

text \<open>A feed in which one id occurs twice.\<close>

lemma repeated_id_window:
  "toConsider (sample_lib h) default_config
     [sample_raw ''urn:1'' (Some ''10-K'') (Some ''2024-01-03T00:00:00Z''),
      sample_raw ''urn:2'' (Some ''10-K'') (Some ''2024-01-02T00:00:00Z''),
      sample_raw ''urn:1'' (Some ''10-K'') (Some ''2024-01-01T00:00:00Z'')]
   = Inr [sample_entry ''urn:1'' (Some ''10-K'') (Some 1704067200000),
          sample_entry ''urn:2'' (Some ''10-K'') (Some 1704153600000),
          sample_entry ''urn:1'' (Some ''10-K'') (Some 1704240000000)]"
  by (simp add: poll_eval)

text \<open>C9 as stated fails: when the id of the most recent entry also occurs earlier in the
  window, the second poll of the same entries emits again everything after the first
  occurrence.\<close>

theorem C9_repeated_id_counterexample:
  "\<forall>h. map filingId (dataset (run_polls (sample_lib h) default_config apple_feed
          [(io_ok, [sample_raw ''urn:1'' (Some ''10-K'') (Some ''2024-01-03T00:00:00Z''),
                    sample_raw ''urn:2'' (Some ''10-K'') (Some ''2024-01-02T00:00:00Z''),
                    sample_raw ''urn:1'' (Some ''10-K'') (Some ''2024-01-01T00:00:00Z'')])]
          empty_state))
        = [''urn:1'', ''urn:2'', ''urn:1''] \<and>
       map filingId (dataset (run_polls (sample_lib h) default_config apple_feed
          [(io_ok, [sample_raw ''urn:1'' (Some ''10-K'') (Some ''2024-01-03T00:00:00Z''),
                    sample_raw ''urn:2'' (Some ''10-K'') (Some ''2024-01-02T00:00:00Z''),
                    sample_raw ''urn:1'' (Some ''10-K'') (Some ''2024-01-01T00:00:00Z'')]),
           (io_ok, [sample_raw ''urn:1'' (Some ''10-K'') (Some ''2024-01-03T00:00:00Z''),
                    sample_raw ''urn:2'' (Some ''10-K'') (Some ''2024-01-02T00:00:00Z''),
                    sample_raw ''urn:1'' (Some ''10-K'') (Some ''2024-01-01T00:00:00Z'')])]
          empty_state))
        = [''urn:1'', ''urn:2'', ''urn:1'', ''urn:2'', ''urn:1'']"
  by (simp add: run_polls_step [OF repeated_id_window] cursor_record cursor_empty_state
      empty_state_simps newItems_None newItems_sample accepted_sample_10K default_types
      filingId_item_of sample_entry_simps del: run_polls.simps(2))

text \<open>C1 as stated fails: when the entry of the stored cursor is gone from the feed, the whole
  window counts as new and an entry already emitted is emitted again.\<close>

theorem C1_replay_counterexample:
  "\<forall>h. map filingId (dataset (run_polls (sample_lib h) default_config apple_feed
          [(io_ok, [sample_raw ''urn:2'' (Some ''10-K'') (Some ''2024-01-02T00:00:00Z''),
                    sample_raw ''urn:1'' (Some ''10-K'') (Some ''2024-01-01T00:00:00Z'')]),
           (io_ok, [sample_raw ''urn:1'' (Some ''10-K'') (Some ''2024-01-01T00:00:00Z'')])]
          empty_state))
        = [''urn:1'', ''urn:2'', ''urn:1''] \<and>
       \<not> distinct (map (\<lambda>a. (feedUrl a, filingId a))
          (dataset (run_polls (sample_lib h) default_config apple_feed
          [(io_ok, [sample_raw ''urn:2'' (Some ''10-K'') (Some ''2024-01-02T00:00:00Z''),
                    sample_raw ''urn:1'' (Some ''10-K'') (Some ''2024-01-01T00:00:00Z'')]),
           (io_ok, [sample_raw ''urn:1'' (Some ''10-K'') (Some ''2024-01-01T00:00:00Z'')])]
          empty_state)))"
  by (simp add: run_polls_step [OF pair_window] run_polls_step [OF single_window]
      cursor_record cursor_empty_state
      empty_state_simps newItems_None newItems_sample accepted_sample_10K default_types
      filingId_item_of feedUrl_item_of sample_entry_simps del: run_polls.simps(2))

text \<open>The feed after a third entry has appeared, and after it has rotated to two later entries.\<close>

lemma three_window:
  "toConsider (sample_lib h) default_config
     [sample_raw ''urn:3'' (Some ''10-K'') (Some ''2024-01-03T00:00:00Z''),
      sample_raw ''urn:2'' (Some ''10-K'') (Some ''2024-01-02T00:00:00Z''),
      sample_raw ''urn:1'' (Some ''10-K'') (Some ''2024-01-01T00:00:00Z'')]
   = Inr [sample_entry ''urn:1'' (Some ''10-K'') (Some 1704067200000),
          sample_entry ''urn:2'' (Some ''10-K'') (Some 1704153600000),
          sample_entry ''urn:3'' (Some ''10-K'') (Some 1704240000000)]"
  by (simp add: poll_eval)

lemma later_window:
  "toConsider (sample_lib h) default_config
     [sample_raw ''urn:5'' (Some ''10-K'') (Some ''2024-01-05T00:00:00Z''),
      sample_raw ''urn:4'' (Some ''10-K'') (Some ''2024-01-04T00:00:00Z'')]
   = Inr [sample_entry ''urn:4'' (Some ''10-K'') (Some 1704326400000),
          sample_entry ''urn:5'' (Some ''10-K'') (Some 1704412800000)]"
  by (simp add: poll_eval)

lemmas run_eval =
  run_polls_step [OF pair_window] run_polls_step [OF three_window]
  run_polls_step [OF later_window] run_polls.simps(1)
  cursor_record cursor_empty_state empty_state_simps newItems_None newItems_sample
  accepted_sample_10K default_types filingId_item_of feedUrl_item_of sample_entry_simps

theorem C1_no_duplicate_alerts_witness:
  "\<forall>h. distinct (map (\<lambda>a. (feedUrl a, filingId a))
          (dataset (run_polls (sample_lib h) default_config apple_feed
            [(io_ok, [sample_raw ''urn:2'' (Some ''10-K'') (Some ''2024-01-02T00:00:00Z''),
                      sample_raw ''urn:1'' (Some ''10-K'') (Some ''2024-01-01T00:00:00Z'')]),
             (io_ok, [sample_raw ''urn:3'' (Some ''10-K'') (Some ''2024-01-03T00:00:00Z''),
                      sample_raw ''urn:2'' (Some ''10-K'') (Some ''2024-01-02T00:00:00Z''),
                      sample_raw ''urn:1'' (Some ''10-K'') (Some ''2024-01-01T00:00:00Z'')]),
             (io_ok, [sample_raw ''urn:5'' (Some ''10-K'') (Some ''2024-01-05T00:00:00Z''),
                      sample_raw ''urn:4'' (Some ''10-K'') (Some ''2024-01-04T00:00:00Z'')])]
            empty_state))) \<and>
       map filingId
          (dataset (run_polls (sample_lib h) default_config apple_feed
            [(io_ok, [sample_raw ''urn:2'' (Some ''10-K'') (Some ''2024-01-02T00:00:00Z''),
                      sample_raw ''urn:1'' (Some ''10-K'') (Some ''2024-01-01T00:00:00Z'')]),
             (io_ok, [sample_raw ''urn:3'' (Some ''10-K'') (Some ''2024-01-03T00:00:00Z''),
                      sample_raw ''urn:2'' (Some ''10-K'') (Some ''2024-01-02T00:00:00Z''),
                      sample_raw ''urn:1'' (Some ''10-K'') (Some ''2024-01-01T00:00:00Z'')]),
             (io_ok, [sample_raw ''urn:5'' (Some ''10-K'') (Some ''2024-01-05T00:00:00Z''),
                      sample_raw ''urn:4'' (Some ''10-K'') (Some ''2024-01-04T00:00:00Z'')])]
            empty_state))
        = [''urn:1'', ''urn:2'', ''urn:3'', ''urn:4'', ''urn:5'']"
proof
  fix h
  let ?ps = "[(io_ok, [sample_raw ''urn:2'' (Some ''10-K'') (Some ''2024-01-02T00:00:00Z''),
                      sample_raw ''urn:1'' (Some ''10-K'') (Some ''2024-01-01T00:00:00Z'')]),
             (io_ok, [sample_raw ''urn:3'' (Some ''10-K'') (Some ''2024-01-03T00:00:00Z''),
                      sample_raw ''urn:2'' (Some ''10-K'') (Some ''2024-01-02T00:00:00Z''),
                      sample_raw ''urn:1'' (Some ''10-K'') (Some ''2024-01-01T00:00:00Z'')]),
             (io_ok, [sample_raw ''urn:5'' (Some ''10-K'') (Some ''2024-01-05T00:00:00Z''),
                      sample_raw ''urn:4'' (Some ''10-K'') (Some ''2024-01-04T00:00:00Z'')])]"
  have fresh: "dataset empty_state = []" by (simp add: empty_state_simps)
  have run: "orderly_run sample_pos (sample_lib h) default_config apple_feed ?ps empty_state"
    by (simp add: pair_window three_window later_window io_ok_simps window_ordered_def
        catches_up_def sample_pos_simps run_eval del: run_polls.simps(2))
  have "map filingId (dataset (run_polls (sample_lib h) default_config apple_feed ?ps empty_state))
        = [''urn:1'', ''urn:2'', ''urn:3'', ''urn:4'', ''urn:5'']"
    by (simp add: run_eval del: run_polls.simps(2))
  with C1_no_duplicate_alerts [OF fresh run]
  show "distinct (map (\<lambda>a. (feedUrl a, filingId a))
          (dataset (run_polls (sample_lib h) default_config apple_feed ?ps empty_state))) \<and>
       map filingId (dataset (run_polls (sample_lib h) default_config apple_feed ?ps empty_state))
        = [''urn:1'', ''urn:2'', ''urn:3'', ''urn:4'', ''urn:5'']"
    by (rule conjI)
qed

end
